theory Spec2Isabelle
  imports Main "HOL-Library.Word" "HOL-Library.Sublist"
begin

section \<open>Go types, kinds and values as the decoder sees them through reflection\<close>

text \<open>
  The decoder of \<^verbatim>\<open>unmarshal.go\<close> works on \<^verbatim>\<open>reflect.Value\<close>s. A Go type is modelled
  as a closed type expression. A struct type carries its package, its name and its
  fields in declaration order; each field has a name, its raw tag, whether it is
  exported, and its type. Types that the decoder has no case for are \<open>TPtr\<close>,
  \<open>TInterface\<close> (named by its printed form) and \<open>TOther\<close> (the kind's name and the
  type's printed form: maps, channels, functions, complex numbers, uintptr).
  Type expressions are finite trees: a struct type that contains a slice of itself is
  outside the model. The platform is taken to be a 64-bit one (\<^verbatim>\<open>int\<close> and \<^verbatim>\<open>uint\<close> have
  64 bits).
\<close>

datatype gtype =
    TInt | TInt8 | TInt16 | TInt32 | TInt64
  | TUint | TUint8 | TUint16 | TUint32 | TUint64
  | TFloat32 | TFloat64
  | TBool
  | TString
  | TSlice gtype
  | TArray nat gtype
  | TStruct string string "sfield list"
  | TPtr gtype
  | TInterface string
  | TOther string string
and sfield = StructField (fname: string) (ftag: string) (fexported: bool) (ftype: gtype)

datatype kind =
    KInt | KInt8 | KInt16 | KInt32 | KInt64
  | KUint | KUint8 | KUint16 | KUint32 | KUint64
  | KFloat32 | KFloat64
  | KBool
  | KString
  | KSlice
  | KArray
  | KStruct
  | KPtr
  | KInterface
  | KOther string

text \<open>\<^verbatim>\<open>reflect.Type.Kind()\<close>.\<close>

fun kind_of :: "gtype \<Rightarrow> kind" where
  "kind_of TInt = KInt"
| "kind_of TInt8 = KInt8"
| "kind_of TInt16 = KInt16"
| "kind_of TInt32 = KInt32"
| "kind_of TInt64 = KInt64"
| "kind_of TUint = KUint"
| "kind_of TUint8 = KUint8"
| "kind_of TUint16 = KUint16"
| "kind_of TUint32 = KUint32"
| "kind_of TUint64 = KUint64"
| "kind_of TFloat32 = KFloat32"
| "kind_of TFloat64 = KFloat64"
| "kind_of TBool = KBool"
| "kind_of TString = KString"
| "kind_of (TSlice t) = KSlice"
| "kind_of (TArray n t) = KArray"
| "kind_of (TStruct p n fs) = KStruct"
| "kind_of (TPtr t) = KPtr"
| "kind_of (TInterface n) = KInterface"
| "kind_of (TOther k n) = KOther k"

text \<open>\<^verbatim>\<open>reflect.Kind.String()\<close>.\<close>

fun kind_string :: "kind \<Rightarrow> string" where
  "kind_string KInt = ''int''"
| "kind_string KInt8 = ''int8''"
| "kind_string KInt16 = ''int16''"
| "kind_string KInt32 = ''int32''"
| "kind_string KInt64 = ''int64''"
| "kind_string KUint = ''uint''"
| "kind_string KUint8 = ''uint8''"
| "kind_string KUint16 = ''uint16''"
| "kind_string KUint32 = ''uint32''"
| "kind_string KUint64 = ''uint64''"
| "kind_string KFloat32 = ''float32''"
| "kind_string KFloat64 = ''float64''"
| "kind_string KBool = ''bool''"
| "kind_string KString = ''string''"
| "kind_string KSlice = ''slice''"
| "kind_string KArray = ''array''"
| "kind_string KStruct = ''struct''"
| "kind_string KPtr = ''ptr''"
| "kind_string KInterface = ''interface''"
| "kind_string (KOther k) = k"

text \<open>Decimal digits of a natural number, for the printed form of an array type.\<close>

fun show_nat :: "nat \<Rightarrow> string" where
  "show_nat n = (if n < 10 then [''0123456789'' ! n]
                 else show_nat (n div 10) @ [''0123456789'' ! (n mod 10)])"

text \<open>\<^verbatim>\<open>reflect.Type.String()\<close> and \<^verbatim>\<open>reflect.Type.Name()\<close> (of a struct type).\<close>

fun type_string :: "gtype \<Rightarrow> string" where
  "type_string (TSlice t) = ''[]'' @ type_string t"
| "type_string (TArray n t) = ''['' @ show_nat n @ '']'' @ type_string t"
| "type_string (TStruct p n fs) = p @ ''.'' @ n"
| "type_string (TPtr t) = ''*'' @ type_string t"
| "type_string (TInterface n) = n"
| "type_string (TOther k n) = n"
| "type_string t = kind_string (kind_of t)"

fun type_name :: "gtype \<Rightarrow> string" where
  "type_name (TStruct p n fs) = n"
| "type_name (TSlice t) = []"
| "type_name (TArray n t) = []"
| "type_name (TPtr t) = []"
| "type_name (TInterface n) = n"
| "type_name (TOther k n) = n"
| "type_name t = kind_string (kind_of t)"

text \<open>\<^verbatim>\<open>reflect.Type.Elem()\<close> of a slice or array type, and \<^verbatim>\<open>reflect.Value.Len()\<close> of an
  array. The decoder calls them on these kinds only.\<close>

fun elem_type :: "gtype \<Rightarrow> gtype" where
  "elem_type (TSlice t) = t"
| "elem_type (TArray n t) = t"
| "elem_type (TPtr t) = t"
| "elem_type t = t"

fun array_len :: "gtype \<Rightarrow> nat" where
  "array_len (TArray n t) = n"
| "array_len t = 0"

text \<open>The fields of a struct type; \<open>None\<close> for every other kind, where
  \<^verbatim>\<open>reflect.Value.NumField()\<close> panics.\<close>

fun struct_fields :: "gtype \<Rightarrow> sfield list option" where
  "struct_fields (TStruct p n fs) = Some fs"
| "struct_fields t = None"

text \<open>The two interface types the delegate resolver compares against.\<close>

definition readerType :: gtype where
  "readerType = TInterface ''binstruct.Reader''"

definition errorType :: gtype where
  "errorType = TInterface ''error''"

definition emptyInterfaceType :: gtype where
  "emptyInterfaceType = TInterface ''interface {}''"

subsection \<open>Errors\<close>

text \<open>
  \<open>InvalidUnmarshalError\<close> is the error type of the source, with the \<^verbatim>\<open>reflect.Type\<close> it
  carries (\<open>None\<close> for a nil type). \<open>ErrorNew\<close> is \<^verbatim>\<open>errors.New(msg)\<close>, \<open>Wrapped e msg\<close> is
  \<^verbatim>\<open>errors.Wrap(e, msg)\<close> for a non-nil \<open>e\<close>. \<open>External\<close> stands for an error made
  outside the decoder: by the reader, the tag parser or a delegate routine.
\<close>

datatype error =
    InvalidUnmarshalError "gtype option"
  | ErrorNew string
  | Wrapped error string
  | External string

text \<open>\<^verbatim>\<open>Error()\<close>: the method of \<open>InvalidUnmarshalError\<close> in the source, and the message
  of a wrapped error (the wrapper's message, a colon, the cause's message).\<close>

fun Error :: "error \<Rightarrow> string" where
  "Error (InvalidUnmarshalError None) = ''binstruct: Unmarshal(nil)''"
| "Error (InvalidUnmarshalError (Some t)) =
     (if kind_of t \<noteq> KPtr then ''binstruct: Unmarshal(non-pointer '' @ type_string t @ '')''
      else ''binstruct: Unmarshal(nil '' @ type_string t @ '')'')"
| "Error (ErrorNew msg) = msg"
| "Error (Wrapped e msg) = msg @ '': '' @ Error e"
| "Error (External msg) = msg"

text \<open>What a call returns to its caller: nil, an error, or a panic that unwinds the
  decoder.\<close>

datatype outcome = Ok | Err error | Panic string

subsection \<open>Values and memory\<close>

text \<open>
  Signed integers of every width are \<open>VInt\<close>, unsigned ones \<open>VUint\<close>; a float is its bit
  pattern; a string is its bytes. \<open>VError\<close> is a value of interface type \<^verbatim>\<open>error\<close>
  (\<open>None\<close> is nil), \<open>VNil\<close> a nil pointer, interface or map.
\<close>

datatype gval =
    VInt int
  | VUint nat
  | VFloat32 "32 word"
  | VFloat64 "64 word"
  | VBool bool
  | VString "8 word list"
  | VSlice "gval list"
  | VArray "gval list"
  | VStruct "gval list"
  | VError "error option"
  | VNil

text \<open>The zero value of a type, as \<^verbatim>\<open>reflect.New(t).Elem()\<close> holds it.\<close>

fun zero_value :: "gtype \<Rightarrow> gval"
  and zero_fields :: "sfield list \<Rightarrow> gval list" where
  "zero_value TInt = VInt 0"
| "zero_value TInt8 = VInt 0"
| "zero_value TInt16 = VInt 0"
| "zero_value TInt32 = VInt 0"
| "zero_value TInt64 = VInt 0"
| "zero_value TUint = VUint 0"
| "zero_value TUint8 = VUint 0"
| "zero_value TUint16 = VUint 0"
| "zero_value TUint32 = VUint 0"
| "zero_value TUint64 = VUint 0"
| "zero_value TFloat32 = VFloat32 0"
| "zero_value TFloat64 = VFloat64 0"
| "zero_value TBool = VBool False"
| "zero_value TString = VString []"
| "zero_value (TSlice t) = VSlice []"
| "zero_value (TArray n t) = VArray (replicate n (zero_value t))"
| "zero_value (TStruct p n fs) = VStruct (zero_fields fs)"
| "zero_value (TPtr t) = VNil"
| "zero_value (TInterface n) = (if n = ''error'' then VError None else VNil)"
| "zero_value (TOther k n) = VNil"
| "zero_fields [] = []"
| "zero_fields (StructField n tg ex t # fs) = zero_value t # zero_fields fs"

text \<open>
  Memory is a list of variables (cells). Cell 0 usually holds the record the caller
  passed; every \<^verbatim>\<open>reflect.New\<close> adds a cell. An address is a cell and a path of
  field or element indices into the value of the cell, so that a nested record and
  the record enclosing it share memory as they do in Go.
\<close>

type_synonym addr = "nat \<times> nat list"

fun lookup_path :: "gval \<Rightarrow> nat list \<Rightarrow> gval option" where
  "lookup_path v [] = Some v"
| "lookup_path (VStruct vs) (i # p) = (if i < length vs then lookup_path (vs ! i) p else None)"
| "lookup_path (VArray vs) (i # p) = (if i < length vs then lookup_path (vs ! i) p else None)"
| "lookup_path v (i # p) = None"

fun update_path :: "gval \<Rightarrow> nat list \<Rightarrow> gval \<Rightarrow> gval" where
  "update_path v [] w = w"
| "update_path (VStruct vs) (i # p) w =
     (if i < length vs then VStruct (vs[i := update_path (vs ! i) p w]) else VStruct vs)"
| "update_path (VArray vs) (i # p) w =
     (if i < length vs then VArray (vs[i := update_path (vs ! i) p w]) else VArray vs)"
| "update_path v (i # p) w = v"

text \<open>Reading and writing memory. An address the decoder holds always names an
  existing part of a cell; for any other address \<open>load\<close> gives \<open>VNil\<close> and \<open>store\<close>
  changes nothing.\<close>

definition load :: "gval list \<Rightarrow> addr \<Rightarrow> gval" where
  "load h a =
     (if fst a < length h
      then (case lookup_path (h ! fst a) (snd a) of Some v \<Rightarrow> v | None \<Rightarrow> VNil)
      else VNil)"

definition store :: "gval list \<Rightarrow> addr \<Rightarrow> gval \<Rightarrow> gval list" where
  "store h a w =
     (if fst a < length h then h[fst a := update_path (h ! fst a) (snd a) w] else h)"

text \<open>
  An addressable \<^verbatim>\<open>reflect.Value\<close>: where it lives, its static type, and the read-only
  flag that reflection sets on a value reached through an unexported field.
\<close>

record rvalue =
  v_addr :: addr
  v_type :: gtype
  v_ro :: bool

definition CanSet :: "rvalue \<Rightarrow> bool" where
  "CanSet v = (\<not> v_ro v)"

text \<open>\<^verbatim>\<open>structValue.Field(i)\<close> for the \<open>i\<close>-th field \<open>f\<close> of the struct's type.\<close>

definition FieldAt :: "rvalue \<Rightarrow> nat \<Rightarrow> sfield \<Rightarrow> rvalue" where
  "FieldAt sv i f =
     \<lparr>v_addr = (fst (v_addr sv), snd (v_addr sv) @ [i]),
      v_type = ftype f,
      v_ro = (v_ro sv \<or> \<not> fexported f)\<rparr>"

text \<open>\<^verbatim>\<open>fieldValue.Index(i)\<close> of an array value (the caller checks the range).\<close>

definition Index :: "rvalue \<Rightarrow> nat \<Rightarrow> rvalue" where
  "Index v i =
     \<lparr>v_addr = (fst (v_addr v), snd (v_addr v) @ [i]),
      v_type = elem_type (v_type v),
      v_ro = v_ro v\<rparr>"

text \<open>
  The argument of \<^verbatim>\<open>Unmarshal\<close>, an \<^verbatim>\<open>interface{}\<close>: the nil interface, a value whose type
  is not a pointer type, a nil pointer to a type, or a pointer to a variable.
\<close>

datatype iface =
    NilIface
  | NonPtr gtype
  | NilPtr gtype
  | Ptr gtype addr

text \<open>\<^verbatim>\<open>reflect.ValueOf(v).Elem()\<close> of a non-nil pointer: the variable pointed to. A value
  that went through an interface carries no read-only flag.\<close>

definition Elem :: "gtype \<Rightarrow> addr \<Rightarrow> rvalue" where
  "Elem t a = \<lparr>v_addr = a, v_type = t, v_ro = False\<rparr>"

section \<open>The collaborators of the decoder\<close>

text \<open>
  Modelled from the spec: the \<^verbatim>\<open>Reader\<close> interface is declared outside the source file.
  Its operations are the reader port of the specification: each either fails or gives
  a value, and leaves the reader in a new state. Only the operations the decoder calls
  are listed; the state \<open>'r\<close> of the reader is a parameter. Fixed-width integers are
  machine words (\<open>sint\<close> reads a signed one, \<open>unat\<close> an unsigned one), a float is its
  bit pattern. \<^verbatim>\<open>ReadBytes\<close> gives the bytes read (the decoder drops the count that comes
  with them), \<^verbatim>\<open>Seek\<close> takes the offset and the whence.
\<close>

record 'r Reader =
  ReadInt8 :: "'r \<Rightarrow> (error + 8 word) \<times> 'r"
  ReadInt16 :: "'r \<Rightarrow> (error + 16 word) \<times> 'r"
  ReadInt32 :: "'r \<Rightarrow> (error + 32 word) \<times> 'r"
  ReadInt64 :: "'r \<Rightarrow> (error + 64 word) \<times> 'r"
  ReadUint8 :: "'r \<Rightarrow> (error + 8 word) \<times> 'r"
  ReadUint16 :: "'r \<Rightarrow> (error + 16 word) \<times> 'r"
  ReadUint32 :: "'r \<Rightarrow> (error + 32 word) \<times> 'r"
  ReadUint64 :: "'r \<Rightarrow> (error + 64 word) \<times> 'r"
  ReadFloat32 :: "'r \<Rightarrow> (error + 32 word) \<times> 'r"
  ReadFloat64 :: "'r \<Rightarrow> (error + 64 word) \<times> 'r"
  ReadBool :: "'r \<Rightarrow> (error + bool) \<times> 'r"
  ReadBytes :: "int \<Rightarrow> 'r \<Rightarrow> (error + 8 word list) \<times> 'r"
  Seek :: "int \<Rightarrow> int \<Rightarrow> 'r \<Rightarrow> (error + int) \<times> 'r"

text \<open>
  Modelled from the spec: \<^verbatim>\<open>fieldReadData\<close> is declared outside the source file. It is the
  field directive of the specification, with the fields the decoder reads:
  \<^verbatim>\<open>Ignore\<close>, \<^verbatim>\<open>Length\<close> (a \<^verbatim>\<open>*int64\<close>, \<open>None\<close> for nil), \<^verbatim>\<open>Offsets\<close> (offset and whence of
  each seek), \<^verbatim>\<open>FuncName\<close> and \<^verbatim>\<open>ElemFieldData\<close> (a pointer, \<open>None\<close> for nil).
\<close>

datatype fieldReadData =
  FieldReadData (Ignore: bool) (Length: "int option") (Offsets: "(int \<times> int) list")
    (FuncName: string) (ElemFieldData: "fieldReadData option")

text \<open>
  A method of a record type that \<^verbatim>\<open>MethodByName\<close> can find: the types of its parameters
  (the receiver apart) and of its results, and what a call does. A call gets the
  reader and the receiver's record, and gives the returned values, the reader and the
  receiver's record as the routine leaves them.
\<close>

record 'r routine =
  m_in :: "gtype list"
  m_out :: "gtype list"
  m_call :: "'r \<Rightarrow> gval \<Rightarrow> gval list \<times> 'r \<times> gval"

text \<open>
  What the decoder is given besides its arguments: the reader \<^verbatim>\<open>u.r\<close>; the two tag
  functions \<^verbatim>\<open>parseTag\<close> and \<^verbatim>\<open>parseReadDataFromTags\<close>, which are defined outside the
  source file and are parameters here (the second reads the record being decoded and
  may give a nil directive); and the exported methods of each type's pointer.
\<close>

record ('r, 't) env =
  reader :: "'r Reader"
  parseTag :: "string \<Rightarrow> error + 't"
  parseReadDataFromTags :: "gval \<Rightarrow> 't \<Rightarrow> error + fieldReadData option"
  methods :: "gtype \<Rightarrow> string \<Rightarrow> 'r routine option"

text \<open>The state the decoder works on: the reader and the memory.\<close>

record 'r state =
  rd :: 'r
  heap :: "gval list"

section \<open>The decoder\<close>

subsection \<open>\<^verbatim>\<open>setOffset\<close>\<close>

fun setOffset :: "'r Reader \<Rightarrow> (int \<times> int) list \<Rightarrow> 'r \<Rightarrow> error option \<times> 'r" where
  "setOffset R [] r = (None, r)"
| "setOffset R (v # vs) r =
     (case Seek R (fst v) (snd v) r of
        (Inl err, r') \<Rightarrow> (Some (Wrapped err ''seek''), r')
      | (Inr p, r') \<Rightarrow> setOffset R vs r')"

subsection \<open>\<^verbatim>\<open>callFunc\<close>\<close>

text \<open>The \<open>i\<close>-th value a call returned, read as an \<^verbatim>\<open>error\<close> (nil is \<open>None\<close>) or as a
  plain value.\<close>

definition ret_value :: "gval list \<Rightarrow> nat \<Rightarrow> gval" where
  "ret_value ret i = (if i < length ret then ret ! i else VNil)"

definition ret_error :: "gval list \<Rightarrow> nat \<Rightarrow> error option" where
  "ret_error ret i = (case ret_value ret i of VError e \<Rightarrow> e | _ \<Rightarrow> None)"

text \<open>
  \<^verbatim>\<open>callFunc\<close> gives \<^verbatim>\<open>(ok, err)\<close>. A method found by name whose only parameter is the
  reader is called before its result types are looked at; the call works on the
  receiver's record in place.
\<close>

definition callFunc ::
  "('r, 't) env \<Rightarrow> string \<Rightarrow> rvalue \<Rightarrow> rvalue \<Rightarrow> 'r state \<Rightarrow> (bool \<times> error option) \<times> 'r state" where
  "callFunc E funcName structValue fieldValue st =
     (case methods E (v_type structValue) funcName of
        None \<Rightarrow> ((False, None), st)
      | Some m \<Rightarrow>
          if length (m_in m) = 1 \<and> m_in m ! 0 = readerType then
            (case m_call m (rd st) (load (heap st) (v_addr structValue)) of
               (ret, r', recv') \<Rightarrow>
                 let st' = st\<lparr>rd := r', heap := store (heap st) (v_addr structValue) recv'\<rparr> in
                 if length (m_out m) = 1 \<and> m_out m ! 0 = errorType then
                   (case ret_error ret 0 of
                      Some err \<Rightarrow> ((True, Some err), st')
                    | None \<Rightarrow> ((True, None), st'))
                 else if length (m_out m) = 2 \<and> m_out m ! 0 = v_type fieldValue
                         \<and> m_out m ! 1 = errorType then
                   (case ret_error ret 1 of
                      Some err \<Rightarrow> ((True, Some err), st')
                    | None \<Rightarrow>
                        ((True, None),
                         if CanSet fieldValue
                         then st'\<lparr>heap := store (heap st') (v_addr fieldValue) (ret_value ret 0)\<rparr>
                         else st'))
                 else ((False, None), st'))
          else ((False, None), st))"

subsection \<open>The delegate branch of \<^verbatim>\<open>setValueToField\<close>\<close>

text \<open>
  \<^verbatim>\<open>strings.NewReplacer(old1, new1, ...).Replace(s)\<close> for non-empty old strings: at each
  position of \<open>s\<close>, left to right, the first old string (in argument order) that stands
  there is replaced; replaced text is not read again.
\<close>

fun first_match :: "(string \<times> string) list \<Rightarrow> string \<Rightarrow> (string \<times> string) option" where
  "first_match [] s = None"
| "first_match (p # ps) s =
     (if fst p \<noteq> [] \<and> prefix (fst p) s then Some p else first_match ps s)"

function Replace :: "(string \<times> string) list \<Rightarrow> string \<Rightarrow> string" where
  "Replace ps [] = []"
| "Replace ps (c # cs) =
     (case first_match ps (c # cs) of
        Some p \<Rightarrow> snd p @ Replace ps (drop (length (fst p)) (c # cs))
      | None \<Rightarrow> c # Replace ps cs)"
  by pat_completeness auto

lemma first_match_nonempty: "first_match ps s = Some p \<Longrightarrow> fst p \<noteq> []"
  by (induction ps) (auto split: if_splits)

termination Replace
proof (relation "measure (\<lambda>(ps, s). length s)")
  show "wf (measure (\<lambda>(ps, s). length s))"
    by simp
next
  fix ps :: "(string \<times> string) list" and c :: char and cs :: string and p
  assume "first_match ps (c # cs) = Some p"
  then have "fst p \<noteq> []"
    by (rule first_match_nonempty)
  then have "0 < length (fst p)"
    by simp
  then show "((ps, drop (length (fst p)) (c # cs)), (ps, c # cs)) \<in> measure (\<lambda>(ps, s). length s)"
    by simp
next
  fix ps :: "(string \<times> string) list" and c :: char and cs :: string
  show "((ps, cs), (ps, c # cs)) \<in> measure (\<lambda>(ps, s). length s)"
    by simp
qed

text \<open>The message template of the source (a raw string literal: it starts and ends
  with a newline, the two signatures are indented by a tab, and the first signature
  is followed by a space).\<close>

definition message_template :: string where
  "message_template =
     [CHR 0x0A] @ ''failed call method, expected methods:'' @ [CHR 0x0A, CHR 0x09]
     @ ''func (*{{Struct}}) {{MethodName}}(r binstruct.Reader) error {} '' @ [CHR 0x0A]
     @ ''or'' @ [CHR 0x0A, CHR 0x09]
     @ ''func (*{{Struct}}) {{MethodName}}(r binstruct.Reader) ({{FieldType}}, error) {}''
     @ [CHR 0x0A]"

definition failed_call_message :: "rvalue \<Rightarrow> string \<Rightarrow> rvalue \<Rightarrow> string" where
  "failed_call_message structValue funcName fieldValue =
     Replace
       [(''{{Struct}}'', type_name (v_type structValue)),
        (''{{MethodName}}'', funcName),
        (''{{FieldType}}'', type_string (v_type fieldValue))]
       message_template"

text \<open>
  The loop over \<^verbatim>\<open>parentStructValues\<close>, from the last one to the first: \<open>svs\<close> is the list
  of the parents still to try, nearest first. The result is \<^verbatim>\<open>(okCallFunc, err)\<close> as the
  loop leaves them: an error ends it, a match ends it, and \<open>(False, None)\<close> says that
  no parent matched.
\<close>

fun callFuncParents ::
  "('r, 't) env \<Rightarrow> string \<Rightarrow> rvalue list \<Rightarrow> rvalue \<Rightarrow> 'r state \<Rightarrow> (bool \<times> error option) \<times> 'r state" where
  "callFuncParents E funcName [] fieldValue st = ((False, None), st)"
| "callFuncParents E funcName (sv # svs) fieldValue st =
     (case callFunc E funcName sv fieldValue st of
        ((okCallFunc, Some err), st') \<Rightarrow> ((okCallFunc, Some err), st')
      | ((True, None), st') \<Rightarrow> ((True, None), st')
      | ((False, None), st') \<Rightarrow> callFuncParents E funcName svs fieldValue st')"

text \<open>The branch \<^verbatim>\<open>if fieldData.FuncName != ""\<close> of \<^verbatim>\<open>setValueToField\<close>.\<close>

definition setValueByFunc ::
  "('r, 't) env \<Rightarrow> rvalue \<Rightarrow> rvalue \<Rightarrow> fieldReadData \<Rightarrow> rvalue list \<Rightarrow> 'r state \<Rightarrow> outcome \<times> 'r state" where
  "setValueByFunc E structValue fieldValue fieldData parentStructValues st =
     (case callFunc E (FuncName fieldData) structValue fieldValue st of
        ((okCallFunc, Some err), st') \<Rightarrow> (Err (Wrapped err ''call custom func''), st')
      | ((okCallFunc, None), st') \<Rightarrow>
          if \<not> okCallFunc then
            (case callFuncParents E (FuncName fieldData) (rev parentStructValues) fieldValue st' of
               ((ok, Some err), st'') \<Rightarrow> (Err (Wrapped err ''call custom func''), st'')
             | ((True, None), st'') \<Rightarrow> (Ok, st'')
             | ((False, None), st'') \<Rightarrow>
                 (Err (ErrorNew (failed_call_message structValue (FuncName fieldData) fieldValue)),
                  st''))
          else (Ok, st'))"

subsection \<open>The scalar cases of \<^verbatim>\<open>setValueToField\<close>\<close>

text \<open>Writing a decoded value: \<^verbatim>\<open>if fieldValue.CanSet() { fieldValue.Set...(value) }\<close>.\<close>

definition set_if_can :: "rvalue \<Rightarrow> gval \<Rightarrow> 'r state \<Rightarrow> 'r state" where
  "set_if_can fieldValue w st =
     (if CanSet fieldValue then st\<lparr>heap := store (heap st) (v_addr fieldValue) w\<rparr> else st)"

text \<open>\<^verbatim>\<open>SetInt\<close> and \<^verbatim>\<open>SetUint\<close> convert the 64-bit value to the width of the field's kind.\<close>

fun kind_bits :: "kind \<Rightarrow> nat" where
  "kind_bits KInt8 = 8"
| "kind_bits KInt16 = 16"
| "kind_bits KInt32 = 32"
| "kind_bits KUint8 = 8"
| "kind_bits KUint16 = 16"
| "kind_bits KUint32 = 32"
| "kind_bits k = 64"

definition SetInt :: "kind \<Rightarrow> int \<Rightarrow> gval" where
  "SetInt k x = VInt (signed_take_bit (kind_bits k - 1) x)"

definition SetUint :: "kind \<Rightarrow> nat \<Rightarrow> gval" where
  "SetUint k x = VUint (take_bit (kind_bits k) x)"

text \<open>The result of a read with its value converted (\<^verbatim>\<open>int64(v)\<close>, \<^verbatim>\<open>uint64(v)\<close>).\<close>

definition conv :: "('a \<Rightarrow> 'b) \<Rightarrow> (error + 'a) \<times> 'r \<Rightarrow> (error + 'b) \<times> 'r" where
  "conv f res = (case res of (Inl err, r) \<Rightarrow> (Inl err, r) | (Inr v, r) \<Rightarrow> (Inr (f v), r))"

text \<open>The inner \<^verbatim>\<open>switch\<close> of the signed case and of the unsigned case: the first case
  that holds decides the read.\<close>

definition readIntSwitch :: "'r Reader \<Rightarrow> fieldReadData \<Rightarrow> kind \<Rightarrow> 'r \<Rightarrow> (error + int) \<times> 'r" where
  "readIntSwitch R fieldData k r =
     (if Length fieldData \<noteq> None \<and> the (Length fieldData) = 1 \<or> k = KInt8 then conv sint (ReadInt8 R r)
      else if Length fieldData \<noteq> None \<and> the (Length fieldData) = 2 \<or> k = KInt16 then conv sint (ReadInt16 R r)
      else if Length fieldData \<noteq> None \<and> the (Length fieldData) = 4 \<or> k = KInt32 then conv sint (ReadInt32 R r)
      else if Length fieldData \<noteq> None \<and> the (Length fieldData) = 8 \<or> k = KInt64 then conv sint (ReadInt64 R r)
      else (Inl (ErrorNew ''need set tag with len or use int8/int16/int32/int64''), r))"

definition readUintSwitch :: "'r Reader \<Rightarrow> fieldReadData \<Rightarrow> kind \<Rightarrow> 'r \<Rightarrow> (error + nat) \<times> 'r" where
  "readUintSwitch R fieldData k r =
     (if Length fieldData \<noteq> None \<and> the (Length fieldData) = 1 \<or> k = KUint8 then conv unat (ReadUint8 R r)
      else if Length fieldData \<noteq> None \<and> the (Length fieldData) = 2 \<or> k = KUint16 then conv unat (ReadUint16 R r)
      else if Length fieldData \<noteq> None \<and> the (Length fieldData) = 4 \<or> k = KUint32 then conv unat (ReadUint32 R r)
      else if Length fieldData \<noteq> None \<and> the (Length fieldData) = 8 \<or> k = KUint64 then conv unat (ReadUint64 R r)
      else (Inl (ErrorNew ''need set tag with len or use uint8/uint16/uint32/uint64''), r))"

text \<open>A scalar case: the read, \<^verbatim>\<open>return err\<close> on a failure (not wrapped), the write
  otherwise.\<close>

definition read_and_set ::
  "rvalue \<Rightarrow> ('a \<Rightarrow> gval) \<Rightarrow> (error + 'a) \<times> 'r \<Rightarrow> 'r state \<Rightarrow> outcome \<times> 'r state" where
  "read_and_set fieldValue mk res st =
     (case res of
        (Inl err, r) \<Rightarrow> (Err err, st\<lparr>rd := r\<rparr>)
      | (Inr v, r) \<Rightarrow> (Ok, set_if_can fieldValue (mk v) (st\<lparr>rd := r\<rparr>)))"

text \<open>
  The scalar kinds of the \<^verbatim>\<open>switch fieldValue.Kind()\<close>. A field of kind \<^verbatim>\<open>float32\<close> gets
  \<^verbatim>\<open>float64(f)\<close> through \<^verbatim>\<open>SetFloat\<close>, which stores it as a \<^verbatim>\<open>float32\<close> again: the field
  holds the value read. Every other kind is the \<^verbatim>\<open>default\<close> case.
\<close>

definition setScalar ::
  "('r, 't) env \<Rightarrow> rvalue \<Rightarrow> fieldReadData \<Rightarrow> 'r state \<Rightarrow> outcome \<times> 'r state" where
  "setScalar E fieldValue fieldData st =
     (let k = kind_of (v_type fieldValue) in
      if k \<in> {KInt, KInt8, KInt16, KInt32, KInt64} then
        read_and_set fieldValue (SetInt k) (readIntSwitch (reader E) fieldData k (rd st)) st
      else if k \<in> {KUint, KUint8, KUint16, KUint32, KUint64} then
        read_and_set fieldValue (SetUint k) (readUintSwitch (reader E) fieldData k (rd st)) st
      else if k = KFloat32 then
        read_and_set fieldValue VFloat32 (ReadFloat32 (reader E) (rd st)) st
      else if k = KFloat64 then
        read_and_set fieldValue VFloat64 (ReadFloat64 (reader E) (rd st)) st
      else if k = KBool then
        read_and_set fieldValue VBool (ReadBool (reader E) (rd st)) st
      else if k = KString then
        (if Length fieldData = None then (Err (ErrorNew ''need set tag with len for string''), st)
         else read_and_set fieldValue VString (ReadBytes (reader E) (the (Length fieldData)) (rd st)) st)
      else (Err (ErrorNew (''type '' @ [CHR 0x22] @ kind_string k @ [CHR 0x22] @ '' not supported'')), st))"

subsection \<open>\<^verbatim>\<open>unmarshal\<close> and \<^verbatim>\<open>setValueToField\<close>\<close>

text \<open>\<^verbatim>\<open>reflect.New(t).Elem()\<close>: a new variable holding the zero value of \<open>t\<close>.\<close>

definition New :: "gtype \<Rightarrow> 'r state \<Rightarrow> rvalue \<times> 'r state" where
  "New t st =
     (\<lparr>v_addr = (length (heap st), []), v_type = t, v_ro = False\<rparr>,
      st\<lparr>heap := heap st @ [zero_value t]\<rparr>)"

text \<open>\<^verbatim>\<open>fieldValue.Set(reflect.Append(fieldValue, tmpV))\<close>.\<close>

fun slice_elems :: "gval \<Rightarrow> gval list" where
  "slice_elems (VSlice xs) = xs"
| "slice_elems v = []"

definition AppendSet :: "rvalue \<Rightarrow> rvalue \<Rightarrow> 'r state \<Rightarrow> 'r state" where
  "AppendSet fieldValue tmpV st =
     st\<lparr>heap := store (heap st) (v_addr fieldValue)
       (VSlice (slice_elems (load (heap st) (v_addr fieldValue)) @ [load (heap st) (v_addr tmpV)]))\<rparr>"

text \<open>\<^verbatim>\<open>fieldValue.Index(int(i)).Set(tmpV)\<close> for an index within the array.\<close>

definition IndexSet :: "rvalue \<Rightarrow> nat \<Rightarrow> rvalue \<Rightarrow> 'r state \<Rightarrow> 'r state" where
  "IndexSet fieldValue i tmpV st =
     st\<lparr>heap := store (heap st) (v_addr (Index fieldValue i)) (load (heap st) (v_addr tmpV))\<rparr>"

text \<open>The zero \<^verbatim>\<open>fieldReadData{}\<close> that stands in for a nil directive.\<close>

definition emptyFieldData :: fieldReadData where
  "emptyFieldData = FieldReadData False None [] [] None"

definition quoted :: "string \<Rightarrow> string" where
  "quoted s = [CHR 0x22] @ s @ [CHR 0x22]"

text \<open>Measures for the termination proof: the depth of a type and of a field list.\<close>

fun tsize :: "gtype \<Rightarrow> nat"
  and fsize :: "sfield list \<Rightarrow> nat" where
  "tsize (TSlice t) = Suc (tsize t)"
| "tsize (TArray n t) = Suc (tsize t)"
| "tsize (TStruct p n fs) = Suc (fsize fs)"
| "tsize (TPtr t) = 0"
| "tsize (TInterface n) = 0"
| "tsize (TOther k n) = 0"
| "tsize TInt = 0" | "tsize TInt8 = 0" | "tsize TInt16 = 0" | "tsize TInt32 = 0" | "tsize TInt64 = 0"
| "tsize TUint = 0" | "tsize TUint8 = 0" | "tsize TUint16 = 0" | "tsize TUint32 = 0" | "tsize TUint64 = 0"
| "tsize TFloat32 = 0" | "tsize TFloat64 = 0" | "tsize TBool = 0" | "tsize TString = 0"
| "fsize [] = 0"
| "fsize (StructField n tg ex t # fs) = Suc (tsize t + fsize fs)"

lemma tsize_elem_type:
  "kind_of t = KSlice \<or> kind_of t = KArray \<Longrightarrow> tsize (elem_type t) < tsize t"
  by (cases t) auto

lemma fsize_struct_fields: "struct_fields t = Some fs \<Longrightarrow> fsize fs < tsize t"
  by (cases t) auto

lemma tsize_ftype: "tsize (ftype f) < fsize (f # fs)"
  by (cases f) simp

lemma fsize_tail: "fsize fs < fsize (f # fs)"
  by (cases f) simp

text \<open>
  The decoder proper. \<open>unmarshal\<close> is the function of that name; \<open>unmarshal_fields\<close> is
  its loop over the fields, at field \<open>i\<close> with the fields from \<open>i\<close> on; \<open>setValueToField\<close>
  is the function of that name, with its loops over the elements of a slice
  (\<open>slice_loop\<close>) and of an array (\<open>array_loop\<close>), each at index \<open>i\<close>.
\<close>

function unmarshal ::
    "('r, 't) env \<Rightarrow> iface \<Rightarrow> rvalue list \<Rightarrow> 'r state \<Rightarrow> outcome \<times> 'r state"
  and unmarshal_fields ::
    "('r, 't) env \<Rightarrow> rvalue \<Rightarrow> nat \<Rightarrow> sfield list \<Rightarrow> rvalue list \<Rightarrow> 'r state \<Rightarrow> outcome \<times> 'r state"
  and setValueToField ::
    "('r, 't) env \<Rightarrow> rvalue \<Rightarrow> rvalue \<Rightarrow> fieldReadData option \<Rightarrow> rvalue list \<Rightarrow> 'r state \<Rightarrow> outcome \<times> 'r state"
  and slice_loop ::
    "('r, 't) env \<Rightarrow> rvalue \<Rightarrow> rvalue \<Rightarrow> fieldReadData \<Rightarrow> rvalue list \<Rightarrow> int \<Rightarrow> int \<Rightarrow> 'r state \<Rightarrow> outcome \<times> 'r state"
  and array_loop ::
    "('r, 't) env \<Rightarrow> rvalue \<Rightarrow> rvalue \<Rightarrow> fieldReadData \<Rightarrow> rvalue list \<Rightarrow> int \<Rightarrow> int \<Rightarrow> 'r state \<Rightarrow> outcome \<times> 'r state"
where
  "unmarshal E v parentStructValues st =
     (case v of
        NilIface \<Rightarrow> (Err (InvalidUnmarshalError None), st)
      | NonPtr t \<Rightarrow> (Err (InvalidUnmarshalError (Some t)), st)
      | NilPtr t \<Rightarrow> (Err (InvalidUnmarshalError (Some (TPtr t))), st)
      | Ptr t a \<Rightarrow>
          (case struct_fields t of
             None \<Rightarrow>
               (Panic (''reflect: call of reflect.Value.NumField on '' @ kind_string (kind_of t) @ '' Value''), st)
           | Some fs \<Rightarrow> unmarshal_fields E (Elem t a) 0 fs parentStructValues st))"
| "unmarshal_fields E structValue i [] parentStructValues st = (Ok, st)"
| "unmarshal_fields E structValue i (fieldType # rest) parentStructValues st =
     (case parseTag E (ftag fieldType) of
        Inl err \<Rightarrow>
          (Err (Wrapped err (''failed parseTag for field '' @ quoted (fname fieldType))), st)
      | Inr tags \<Rightarrow>
          (case parseReadDataFromTags E (load (heap st) (v_addr structValue)) tags of
             Inl err \<Rightarrow>
               (Err (Wrapped err (''failed parse ReadData from tags for field '' @ quoted (fname fieldType))), st)
           | Inr fieldData \<Rightarrow>
               (case setValueToField E structValue (FieldAt structValue i fieldType) fieldData
                       parentStructValues st of
                  (Ok, st') \<Rightarrow> unmarshal_fields E structValue (Suc i) rest parentStructValues st'
                | (Err err, st') \<Rightarrow>
                    (Err (Wrapped err (''failed set value to field '' @ quoted (fname fieldType))), st')
                | (Panic msg, st') \<Rightarrow> (Panic msg, st'))))"
| "setValueToField E structValue fieldValue fd parentStructValues st =
     (let fieldData = (case fd of None \<Rightarrow> emptyFieldData | Some d \<Rightarrow> d) in
      if Ignore fieldData then (Ok, st)
      else
        (case setOffset (reader E) (Offsets fieldData) (rd st) of
           (Some err, r) \<Rightarrow> (Err (Wrapped err ''set offset''), st\<lparr>rd := r\<rparr>)
         | (None, r) \<Rightarrow>
             if FuncName fieldData \<noteq> [] then
               setValueByFunc E structValue fieldValue fieldData parentStructValues (st\<lparr>rd := r\<rparr>)
             else if kind_of (v_type fieldValue) = KSlice then
               (if Length fieldData = None then
                  (Err (ErrorNew ''need set tag with len for slice''), st\<lparr>rd := r\<rparr>)
                else slice_loop E structValue fieldValue fieldData parentStructValues
                       0 (the (Length fieldData)) (st\<lparr>rd := r\<rparr>))
             else if kind_of (v_type fieldValue) = KArray then
               (let arrLen = (if Length fieldData \<noteq> None then the (Length fieldData) else 0);
                    arrLen = (if arrLen = 0 then int (array_len (v_type fieldValue)) else arrLen)
                in array_loop E structValue fieldValue fieldData parentStructValues
                     0 arrLen (st\<lparr>rd := r\<rparr>))
             else if kind_of (v_type fieldValue) = KStruct then
               (if v_ro fieldValue then
                  (Panic ''reflect.Value.Interface: cannot return value obtained from unexported field or method'',
                   st\<lparr>rd := r\<rparr>)
                else
                  (case unmarshal E (Ptr (v_type fieldValue) (v_addr fieldValue))
                          (parentStructValues @ [structValue]) (st\<lparr>rd := r\<rparr>) of
                     (Err err, st') \<Rightarrow> (Err (Wrapped err ''unmarshal struct''), st')
                   | (res, st') \<Rightarrow> (res, st')))
             else setScalar E fieldValue fieldData (st\<lparr>rd := r\<rparr>)))"
| "slice_loop E structValue fieldValue fieldData parentStructValues i n st =
     (if i < n then
        (let tmpV = fst (New (elem_type (v_type fieldValue)) st);
             st0 = snd (New (elem_type (v_type fieldValue)) st)
         in case setValueToField E structValue tmpV (ElemFieldData fieldData) parentStructValues st0 of
              (Ok, st') \<Rightarrow>
                slice_loop E structValue fieldValue fieldData parentStructValues (i + 1) n
                  (if CanSet fieldValue then AppendSet fieldValue tmpV st' else st')
            | (res, st') \<Rightarrow> (res, st'))
      else (Ok, st))"
| "array_loop E structValue fieldValue fieldData parentStructValues i arrLen st =
     (if i < arrLen then
        (let tmpV = fst (New (elem_type (v_type fieldValue)) st);
             st0 = snd (New (elem_type (v_type fieldValue)) st)
         in case setValueToField E structValue tmpV (ElemFieldData fieldData) parentStructValues st0 of
              (Ok, st') \<Rightarrow>
                if CanSet fieldValue then
                  (if nat i < array_len (v_type fieldValue) then
                     array_loop E structValue fieldValue fieldData parentStructValues (i + 1) arrLen
                       (IndexSet fieldValue (nat i) tmpV st')
                   else (Panic ''reflect: array index out of range'', st'))
                else array_loop E structValue fieldValue fieldData parentStructValues (i + 1) arrLen st'
            | (res, st') \<Rightarrow> (res, st'))
      else (Ok, st))"
  by pat_completeness auto

termination
proof (relation "measures
    [\<lambda>x. case x of
        Inl (Inl (E, v, ps, st)) \<Rightarrow> (case v of Ptr t a \<Rightarrow> tsize t | _ \<Rightarrow> 0)
      | Inl (Inr (E, sv, i, fs, ps, st)) \<Rightarrow> fsize fs
      | Inr (Inl (E, sv, fv, fd, ps, st)) \<Rightarrow> tsize (v_type fv)
      | Inr (Inr (Inl (E, sv, fv, fd, ps, i, n, st))) \<Rightarrow> tsize (elem_type (v_type fv))
      | Inr (Inr (Inr (E, sv, fv, fd, ps, i, n, st))) \<Rightarrow> tsize (elem_type (v_type fv)),
     \<lambda>x. case x of
        Inl y \<Rightarrow> 0
      | Inr (Inl y) \<Rightarrow> 1
      | Inr (Inr y) \<Rightarrow> 2,
     \<lambda>x. case x of
        Inr (Inr (Inl (E, sv, fv, fd, ps, i, n, st))) \<Rightarrow> nat (n - i)
      | Inr (Inr (Inr (E, sv, fv, fd, ps, i, n, st))) \<Rightarrow> nat (n - i)
      | _ \<Rightarrow> 0]", goal_cases)
  case 1
  show ?case by simp
qed (auto simp: fsize_struct_fields tsize_ftype fsize_tail tsize_elem_type New_def FieldAt_def Elem_def)

text \<open>The exported entry point: no enclosing records.\<close>

definition Unmarshal :: "('r, 't) env \<Rightarrow> iface \<Rightarrow> 'r state \<Rightarrow> outcome \<times> 'r state" where
  "Unmarshal E v st = unmarshal E v [] st"

section \<open>A reader over a byte buffer\<close>

text \<open>
  Modelled from the spec: the reader itself is not part of the source file. The
  specification describes it as a sequential, seekable byte source: every read
  consumes its bytes at the cursor and advances the cursor by their number, a read
  past the available data fails with an end-of-data condition, and a seek gives the
  new absolute position or fails. Multi-byte numbers follow the little-endian
  convention of the specification's examples. A failed read leaves the cursor where
  it was.
\<close>

record byte_reader =
  br_buf :: "8 word list"
  br_pos :: nat

definition EOF :: error where
  "EOF = External ''EOF''"

definition take_bytes :: "nat \<Rightarrow> byte_reader \<Rightarrow> (error + 8 word list) \<times> byte_reader" where
  "take_bytes n r =
     (if br_pos r + n \<le> length (br_buf r)
      then (Inr (take n (drop (br_pos r) (br_buf r))), r\<lparr>br_pos := br_pos r + n\<rparr>)
      else (Inl EOF, r))"

fun le_nat :: "8 word list \<Rightarrow> nat" where
  "le_nat [] = 0"
| "le_nat (b # bs) = unat b + 256 * le_nat bs"

definition le_word :: "8 word list \<Rightarrow> 'a::len word" where
  "le_word bs = word_of_nat (le_nat bs)"

definition byte_seek :: "int \<Rightarrow> int \<Rightarrow> byte_reader \<Rightarrow> (error + int) \<times> byte_reader" where
  "byte_seek off whence r =
     (let base = (if whence = 0 then Some 0
                  else if whence = 1 then Some (int (br_pos r))
                  else if whence = 2 then Some (int (length (br_buf r)))
                  else None)
      in case base of
           None \<Rightarrow> (Inl (External ''invalid whence''), r)
         | Some b \<Rightarrow>
             if b + off < 0 then (Inl (External ''negative position''), r)
             else (Inr (b + off), r\<lparr>br_pos := nat (b + off)\<rparr>))"

definition le_reader :: "byte_reader Reader" where
  "le_reader =
     \<lparr>ReadInt8 = (\<lambda>r. conv le_word (take_bytes 1 r)),
      ReadInt16 = (\<lambda>r. conv le_word (take_bytes 2 r)),
      ReadInt32 = (\<lambda>r. conv le_word (take_bytes 4 r)),
      ReadInt64 = (\<lambda>r. conv le_word (take_bytes 8 r)),
      ReadUint8 = (\<lambda>r. conv le_word (take_bytes 1 r)),
      ReadUint16 = (\<lambda>r. conv le_word (take_bytes 2 r)),
      ReadUint32 = (\<lambda>r. conv le_word (take_bytes 4 r)),
      ReadUint64 = (\<lambda>r. conv le_word (take_bytes 8 r)),
      ReadFloat32 = (\<lambda>r. conv le_word (take_bytes 4 r)),
      ReadFloat64 = (\<lambda>r. conv le_word (take_bytes 8 r)),
      ReadBool = (\<lambda>r. conv (\<lambda>bs. le_nat bs \<noteq> 0) (take_bytes 1 r)),
      ReadBytes = (\<lambda>n r. take_bytes (nat n) r),
      Seek = byte_seek\<rparr>"

text \<open>
  An environment for worked examples: the byte reader, no methods unless given, and
  tag functions that look the raw tag up in a table of directives (a tag that is not
  in the table gives the nil directive).
\<close>

definition table_env ::
  "(string \<times> fieldReadData) list \<Rightarrow> (gtype \<Rightarrow> string \<Rightarrow> byte_reader routine option)
     \<Rightarrow> (byte_reader, string) env" where
  "table_env tab ms =
     \<lparr>reader = le_reader,
      parseTag = (\<lambda>tag. Inr tag),
      parseReadDataFromTags = (\<lambda>sv tag. Inr (map_of tab tag)),
      methods = ms\<rparr>"

section \<open>Worked examples: records, readers and routines\<close>

text \<open>The byte reader with no methods and no directives; a state over a buffer, with
  the cursor at its start.\<close>

definition plain_env :: "(byte_reader, string) env" where
  "plain_env = table_env [] (\<lambda>t n. None)"

definition bytes_state :: "8 word list \<Rightarrow> gval list \<Rightarrow> byte_reader state" where
  "bytes_state bs h = \<lparr>rd = \<lparr>br_buf = bs, br_pos = 0\<rparr>, heap = h\<rparr>"

text \<open>A record with one field of the given type, in cell 0, and that field.\<close>

definition Single :: "gtype \<Rightarrow> gtype" where
  "Single t = TStruct ''main'' ''Single'' [StructField ''Data'' [] True t]"

definition single_record :: "gtype \<Rightarrow> rvalue" where
  "single_record t = Elem (Single t) (0, [])"

definition single_field :: "gtype \<Rightarrow> rvalue" where
  "single_field t = FieldAt (single_record t) 0 (StructField ''Data'' [] True t)"

text \<open>A directive that only gives a length.\<close>

definition with_length :: "int \<Rightarrow> fieldReadData" where
  "with_length n = FieldReadData False (Some n) [] [] None"

text \<open>Whether an outcome is the invalid-target error.\<close>

definition is_invalid_target :: "outcome \<Rightarrow> bool" where
  "is_invalid_target res = (case res of Err (InvalidUnmarshalError t) \<Rightarrow> True | _ \<Rightarrow> False)"

subsection \<open>The width of an integer read, as the claims speak of it\<close>

text \<open>
  Stated from the claims' words, to be compared with the decoder's \<^verbatim>\<open>switch\<close>: the width
  in bits that a directive length asks for (1, 2, 4 or 8 bytes), the width that a
  fixed-width integer kind has of its own, and the width read when both, one or none
  of them is there (the smaller of the two when both are).
\<close>

fun length_width :: "int option \<Rightarrow> nat option" where
  "length_width None = None"
| "length_width (Some n) =
     (if n = 1 then Some 8 else if n = 2 then Some 16 else if n = 4 then Some 32
      else if n = 8 then Some 64 else None)"

fun type_width :: "kind \<Rightarrow> nat option" where
  "type_width KInt8 = Some 8"
| "type_width KInt16 = Some 16"
| "type_width KInt32 = Some 32"
| "type_width KInt64 = Some 64"
| "type_width KUint8 = Some 8"
| "type_width KUint16 = Some 16"
| "type_width KUint32 = Some 32"
| "type_width KUint64 = Some 64"
| "type_width k = None"

definition selected_width :: "int option \<Rightarrow> kind \<Rightarrow> nat option" where
  "selected_width len k =
     (case (length_width len, type_width k) of
        (None, None) \<Rightarrow> None
      | (Some a, None) \<Rightarrow> Some a
      | (None, Some b) \<Rightarrow> Some b
      | (Some a, Some b) \<Rightarrow> Some (min a b))"

text \<open>The read of a given width, with its value converted to 64 bits.\<close>

definition read_signed :: "'r Reader \<Rightarrow> nat \<Rightarrow> 'r \<Rightarrow> (error + int) \<times> 'r" where
  "read_signed R w r =
     (if w = 8 then conv sint (ReadInt8 R r)
      else if w = 16 then conv sint (ReadInt16 R r)
      else if w = 32 then conv sint (ReadInt32 R r)
      else conv sint (ReadInt64 R r))"

definition read_unsigned :: "'r Reader \<Rightarrow> nat \<Rightarrow> 'r \<Rightarrow> (error + nat) \<times> 'r" where
  "read_unsigned R w r =
     (if w = 8 then conv unat (ReadUint8 R r)
      else if w = 16 then conv unat (ReadUint16 R r)
      else if w = 32 then conv unat (ReadUint32 R r)
      else conv unat (ReadUint64 R r))"

text \<open>The kinds of the two integer cases of the \<^verbatim>\<open>switch\<close>.\<close>

definition signed_kinds :: "kind set" where
  "signed_kinds = {KInt, KInt8, KInt16, KInt32, KInt64}"

definition unsigned_kinds :: "kind set" where
  "unsigned_kinds = {KUint, KUint8, KUint16, KUint32, KUint64}"

subsection \<open>Delegate routines, as the claims speak of them\<close>

text \<open>
  Stated from the claims' words, to be compared with the checks of \<^verbatim>\<open>callFunc\<close>. A record
  offers a compatible routine for a field when a method of that name is reachable
  from the record, takes the reader as its only parameter, and returns either one
  \<^verbatim>\<open>error\<close>, or a value of the field's static type and an \<^verbatim>\<open>error\<close>.
\<close>

definition compatible :: "('r, 't) env \<Rightarrow> string \<Rightarrow> rvalue \<Rightarrow> rvalue \<Rightarrow> bool" where
  "compatible E funcName fieldValue sv =
     (case methods E (v_type sv) funcName of
        None \<Rightarrow> False
      | Some m \<Rightarrow>
          m_in m = [readerType]
          \<and> (m_out m = [errorType] \<or> m_out m = [v_type fieldValue, errorType]))"

text \<open>
  Stated from the claim's word "assignable": Go's assignability between the types of
  this model. A value of type \<open>V\<close> can be assigned to \<open>T\<close> when the two types are
  identical, or when \<open>T\<close> is the empty interface, which every type implements.
\<close>

definition assignable_to :: "gtype \<Rightarrow> gtype \<Rightarrow> bool" where
  "assignable_to V T = (V = T \<or> T = emptyInterfaceType)"

text \<open>The state after \<^verbatim>\<open>callFunc\<close> was tried on each record of a list in turn. A routine
  that takes the reader is called even when its results are of another shape.\<close>

definition probe :: "('r, 't) env \<Rightarrow> string \<Rightarrow> rvalue \<Rightarrow> rvalue list \<Rightarrow> 'r state \<Rightarrow> 'r state" where
  "probe E funcName fieldValue svs st = foldl (\<lambda>s sv. snd (callFunc E funcName sv fieldValue s)) st svs"

subsection \<open>Routines and records of the worked examples\<close>

text \<open>The methods of each type as a table; a routine \<^verbatim>\<open>(r Reader) (int32, error)\<close> that
  reads four bytes and leaves its receiver alone.\<close>

definition method_table ::
  "(gtype \<times> string \<times> 'r routine) list \<Rightarrow> gtype \<Rightarrow> string \<Rightarrow> 'r routine option" where
  "method_table tab t n = map_of (map (\<lambda>(t, n, m). ((t, n), m)) tab) (t, n)"

definition read_int32_value :: "byte_reader routine" where
  "read_int32_value =
     \<lparr>m_in = [readerType],
      m_out = [TInt32, errorType],
      m_call = (\<lambda>r recv.
        case ReadInt32 le_reader r of
          (Inl err, r') \<Rightarrow> ([VInt 0, VError (Some err)], r', recv)
        | (Inr v, r') \<Rightarrow> ([VInt (sint v), VError None], r', recv))\<rparr>"

text \<open>A record whose field is an empty interface, with that routine under the name
  \<^verbatim>\<open>ReadValue\<close>.\<close>

definition holder_env :: "(byte_reader, string) env" where
  "holder_env = table_env [] (method_table [(Single emptyInterfaceType, ''ReadValue'', read_int32_value)])"

text \<open>A record with one unexported \<^verbatim>\<open>int32\<close> field and the routine on it.\<close>

definition hidden_record :: gtype where
  "hidden_record = TStruct ''main'' ''Hidden'' [StructField ''value'' ''ReadValue'' False TInt32]"

definition hidden_env :: "(byte_reader, string) env" where
  "hidden_env = table_env [] (method_table [(hidden_record, ''ReadValue'', read_int32_value)])"

definition hidden_field :: rvalue where
  "hidden_field = FieldAt (Elem hidden_record (0, [])) 0 (StructField ''value'' ''ReadValue'' False TInt32)"

text \<open>Three records nested in each other; only the outermost one has the routine that
  the innermost record's field names.\<close>

definition Inner :: gtype where
  "Inner = TStruct ''main'' ''Inner'' [StructField ''Value'' ''ReadValue'' True TInt32]"

definition Middle :: gtype where
  "Middle = TStruct ''main'' ''Middle'' [StructField ''Inner'' [] True Inner]"

definition Outer :: gtype where
  "Outer = TStruct ''main'' ''Outer'' [StructField ''Middle'' [] True Middle]"

definition nested_env :: "(byte_reader, string) env" where
  "nested_env =
     table_env [(''ReadValue'', FieldReadData False None [] ''ReadValue'' None)]
       (method_table [(Outer, ''ReadValue'', read_int32_value)])"

definition inner_field :: rvalue where
  "inner_field = FieldAt (Elem Inner (0, [0, 0])) 0 (StructField ''Value'' ''ReadValue'' True TInt32)"

subsection \<open>What the decoder may change in memory\<close>

text \<open>
  The routines of an environment are receiver preserving when every call leaves the
  receiver's record as it was (a routine of the value-returning shape need not write
  anything itself). \<open>only_at a h h'\<close> says that memory \<open>h'\<close> is memory \<open>h\<close> with the value
  at address \<open>a\<close> replaced, followed by new cells.
\<close>

definition receiver_preserving :: "('r, 't) env \<Rightarrow> bool" where
  "receiver_preserving E = (\<forall>t n m r v. methods E t n = Some m \<longrightarrow> snd (snd (m_call m r v)) = v)"

definition only_at :: "addr \<Rightarrow> gval list \<Rightarrow> gval list \<Rightarrow> bool" where
  "only_at a h h' = (\<exists>w ext. h' = store h a w @ ext)"

text \<open>A record with a nested record, and the error that decoding it over three bytes
  ends with.\<close>

definition Body :: gtype where
  "Body = TStruct ''main'' ''Body'' [StructField ''A'' [] True TInt8, StructField ''B'' [] True TInt16]"

definition Message :: gtype where
  "Message = TStruct ''main'' ''Message'' [StructField ''Header'' [] True TInt8, StructField ''Body'' [] True Body]"

definition body_failure :: error where
  "body_failure =
     Wrapped (Wrapped (Wrapped EOF (''failed set value to field '' @ quoted ''B''))
       ''unmarshal struct'') (''failed set value to field '' @ quoted ''Body'')"

section \<open>Basic facts\<close>

declare unmarshal.simps [simp del] unmarshal_fields.simps [simp del]
  setValueToField.simps [simp del] slice_loop.simps [simp del] array_loop.simps [simp del]

lemma setValueToField_Some:
  "setValueToField E structValue fieldValue (Some fieldData) parentStructValues st =
     (if Ignore fieldData then (Ok, st)
      else
        (case setOffset (reader E) (Offsets fieldData) (rd st) of
           (Some err, r) \<Rightarrow> (Err (Wrapped err ''set offset''), st\<lparr>rd := r\<rparr>)
         | (None, r) \<Rightarrow>
             if FuncName fieldData \<noteq> [] then
               setValueByFunc E structValue fieldValue fieldData parentStructValues (st\<lparr>rd := r\<rparr>)
             else if kind_of (v_type fieldValue) = KSlice then
               (if Length fieldData = None then
                  (Err (ErrorNew ''need set tag with len for slice''), st\<lparr>rd := r\<rparr>)
                else slice_loop E structValue fieldValue fieldData parentStructValues
                       0 (the (Length fieldData)) (st\<lparr>rd := r\<rparr>))
             else if kind_of (v_type fieldValue) = KArray then
               array_loop E structValue fieldValue fieldData parentStructValues 0
                 (if Length fieldData = None \<or> the (Length fieldData) = 0
                  then int (array_len (v_type fieldValue)) else the (Length fieldData))
                 (st\<lparr>rd := r\<rparr>)
             else if kind_of (v_type fieldValue) = KStruct then
               (if v_ro fieldValue then
                  (Panic ''reflect.Value.Interface: cannot return value obtained from unexported field or method'',
                   st\<lparr>rd := r\<rparr>)
                else
                  (case unmarshal E (Ptr (v_type fieldValue) (v_addr fieldValue))
                          (parentStructValues @ [structValue]) (st\<lparr>rd := r\<rparr>) of
                     (Err err, st') \<Rightarrow> (Err (Wrapped err ''unmarshal struct''), st')
                   | (res, st') \<Rightarrow> (res, st')))
             else setScalar E fieldValue fieldData (st\<lparr>rd := r\<rparr>)))"
  by (cases "Length fieldData")
    (simp_all add: setValueToField.simps [of E structValue fieldValue "Some fieldData"] Let_def
      cong: prod.case_cong option.case_cong if_cong)

lemma setValueToField_None:
  "setValueToField E structValue fieldValue None parentStructValues st =
     setValueToField E structValue fieldValue (Some emptyFieldData) parentStructValues st"
  by (simp add: setValueToField.simps [of E structValue fieldValue None]
      setValueToField.simps [of E structValue fieldValue "Some emptyFieldData"])

lemma state_rd_same [simp]: "st\<lparr>rd := rd st\<rparr> = st"
  by simp

text \<open>The loop over an array reads the directive only for its element directive; the
  delegate branch reads it only for the routine's name.\<close>

lemma array_loop_fieldData:
  assumes "ElemFieldData fd = ElemFieldData fd'"
  shows "array_loop E sv fv fd ps i n st = array_loop E sv fv fd' ps i n st"
proof (induction "nat (n - i)" arbitrary: i st)
  case 0
  then have "\<not> i < n" by simp
  then show ?case by (simp add: array_loop.simps)
next
  case (Suc k)
  then have lt: "i < n" and k: "k = nat (n - (i + 1))" by linarith+
  show ?case
    using lt assms Suc.hyps(1) [OF k]
    by (simp add: array_loop.simps [of E sv fv fd ps i n st] array_loop.simps [of E sv fv fd' ps i n st]
        Let_def split: prod.split outcome.split)
qed

lemma setValueByFunc_fieldData:
  assumes "FuncName fd = FuncName fd'"
  shows "setValueByFunc E sv fv fd ps st = setValueByFunc E sv fv fd' ps st"
  unfolding setValueByFunc_def assms by (rule refl)

section \<open>The entry point\<close>

text \<open>
  C4, as amended. \<^verbatim>\<open>Unmarshal\<close> called with the nil interface, with a value that is not a
  pointer, or with a nil pointer returns the \<open>InvalidUnmarshalError\<close> that carries the
  argument's type, and the state it returns is the state it was given: for every
  reader, no operation of the reader has run (and memory is untouched).
\<close>

theorem Unmarshal_invalid_target:
  "Unmarshal E NilIface st = (Err (InvalidUnmarshalError None), st)
   \<and> Unmarshal E (NonPtr t) st = (Err (InvalidUnmarshalError (Some t)), st)
   \<and> Unmarshal E (NilPtr t) st = (Err (InvalidUnmarshalError (Some (TPtr t))), st)"
  by (simp add: Unmarshal_def unmarshal.simps)

text \<open>
  C4 as stated fails for a non-nil pointer to something that is not a record: the
  guard of \<^verbatim>\<open>unmarshal\<close> lets it pass, and counting the fields of an \<^verbatim>\<open>int32\<close> panics.
  The outcome is a panic, not the invalid-target error.
\<close>

theorem Unmarshal_pointer_to_int32:
  "Unmarshal plain_env (Ptr TInt32 (0, [])) (bytes_state [1, 0, 0, 0] [VInt 0])
     = (Panic ''reflect: call of reflect.Value.NumField on int32 Value'',
        bytes_state [1, 0, 0, 0] [VInt 0])
   \<and> \<not> is_invalid_target
         (fst (Unmarshal plain_env (Ptr TInt32 (0, [])) (bytes_state [1, 0, 0, 0] [VInt 0])))"
  by (simp add: Unmarshal_def unmarshal.simps is_invalid_target_def)

section \<open>Sequences\<close>

text \<open>
  C8. A slice field of \<^verbatim>\<open>uint8\<close> elements with length 3, decoded over the bytes 1, 2, 3,
  becomes the slice [1, 2, 3]; with length 2 over the same bytes it becomes [1, 2] and
  the cursor of the reader is left at index 2. A slice field whose directive has no
  length (or that has no directive at all) fails with the error
  "need set tag with len for slice", whatever the reader and the state: nothing is
  read and nothing is written.
\<close>

theorem slice_field_decoding:
  "(case setValueToField plain_env (single_record (TSlice TUint8)) (single_field (TSlice TUint8))
           (Some (with_length 3)) [] (bytes_state [1, 2, 3] [zero_value (Single (TSlice TUint8))]) of
      (res, st') \<Rightarrow>
        res = Ok \<and> load (heap st') (v_addr (single_field (TSlice TUint8))) = VSlice [VUint 1, VUint 2, VUint 3])
   \<and> (case setValueToField plain_env (single_record (TSlice TUint8)) (single_field (TSlice TUint8))
           (Some (with_length 2)) [] (bytes_state [1, 2, 3] [zero_value (Single (TSlice TUint8))]) of
      (res, st') \<Rightarrow>
        res = Ok \<and> load (heap st') (v_addr (single_field (TSlice TUint8))) = VSlice [VUint 1, VUint 2]
        \<and> br_pos (rd st') = 2)
   \<and> setValueToField E sv \<lparr>v_addr = a, v_type = TSlice t, v_ro = ro\<rparr>
        (Some (FieldReadData False None [] [] el)) ps st
      = (Err (ErrorNew ''need set tag with len for slice''), st)
   \<and> setValueToField E sv \<lparr>v_addr = a, v_type = TSlice t, v_ro = ro\<rparr> None ps st
      = (Err (ErrorNew ''need set tag with len for slice''), st)
   \<and> prefix ''need set tag with len'' (Error (ErrorNew ''need set tag with len for slice''))"
proof -
  have three:
    "(case setValueToField plain_env (single_record (TSlice TUint8)) (single_field (TSlice TUint8))
           (Some (with_length 3)) [] (bytes_state [1, 2, 3] [zero_value (Single (TSlice TUint8))]) of
      (res, st') \<Rightarrow>
        res = Ok \<and> load (heap st') (v_addr (single_field (TSlice TUint8))) = VSlice [VUint 1, VUint 2, VUint 3])"
    by code_simp
  have two:
    "(case setValueToField plain_env (single_record (TSlice TUint8)) (single_field (TSlice TUint8))
           (Some (with_length 2)) [] (bytes_state [1, 2, 3] [zero_value (Single (TSlice TUint8))]) of
      (res, st') \<Rightarrow>
        res = Ok \<and> load (heap st') (v_addr (single_field (TSlice TUint8))) = VSlice [VUint 1, VUint 2]
        \<and> br_pos (rd st') = 2)"
    by code_simp
  have none:
    "setValueToField E sv \<lparr>v_addr = a, v_type = TSlice t, v_ro = ro\<rparr>
        (Some (FieldReadData False None [] [] el)) ps st
      = (Err (ErrorNew ''need set tag with len for slice''), st)"
    by (simp add: setValueToField_Some)
  have nil:
    "setValueToField E sv \<lparr>v_addr = a, v_type = TSlice t, v_ro = ro\<rparr> None ps st
      = (Err (ErrorNew ''need set tag with len for slice''), st)"
    by (simp add: setValueToField_None setValueToField_Some emptyFieldData_def)
  have msg: "prefix ''need set tag with len'' (Error (ErrorNew ''need set tag with len for slice''))"
    by simp
  from three two none nil msg show ?thesis
    by blast
qed

text \<open>
  C10. For an array field, a directive length of 0 decodes exactly as an absent length
  does, whatever the rest of the directive: when the field is decoded by the built-in
  case, the loop over its elements runs to the array's static length. Over the bytes
  1, 2, 3 an array of three \<^verbatim>\<open>uint8\<close> with length 0 becomes [1, 2, 3] and the cursor ends
  at index 3, where a loop of zero elements would have read nothing.
\<close>

theorem array_length_zero_is_absent:
  "setValueToField E sv \<lparr>v_addr = a, v_type = TArray n t, v_ro = ro\<rparr>
       (Some (FieldReadData ig (Some 0) offs fn el)) ps st
     = setValueToField E sv \<lparr>v_addr = a, v_type = TArray n t, v_ro = ro\<rparr>
         (Some (FieldReadData ig None offs fn el)) ps st
   \<and> setValueToField E sv \<lparr>v_addr = a, v_type = TArray n t, v_ro = ro\<rparr>
         (Some (FieldReadData False (Some 0) [] [] el)) ps st
     = array_loop E sv \<lparr>v_addr = a, v_type = TArray n t, v_ro = ro\<rparr>
         (FieldReadData False (Some 0) [] [] el) ps 0 (int n) st
   \<and> (case setValueToField plain_env (single_record (TArray 3 TUint8)) (single_field (TArray 3 TUint8))
           (Some (with_length 0)) [] (bytes_state [1, 2, 3] [zero_value (Single (TArray 3 TUint8))]) of
      (res, st') \<Rightarrow>
        res = Ok \<and> load (heap st') (v_addr (single_field (TArray 3 TUint8))) = VArray [VUint 1, VUint 2, VUint 3]
        \<and> br_pos (rd st') = 3)"
proof -
  have same:
    "setValueToField E sv \<lparr>v_addr = a, v_type = TArray n t, v_ro = ro\<rparr>
       (Some (FieldReadData ig (Some 0) offs fn el)) ps st
     = setValueToField E sv \<lparr>v_addr = a, v_type = TArray n t, v_ro = ro\<rparr>
         (Some (FieldReadData ig None offs fn el)) ps st"
    by (simp add: setValueToField_Some
        array_loop_fieldData [of "FieldReadData False (Some 0) offs [] el" "FieldReadData False None offs [] el"]
        setValueByFunc_fieldData [of "FieldReadData False (Some 0) offs fn el" "FieldReadData False None offs fn el"]
        split: prod.splits option.splits)
  have full:
    "setValueToField E sv \<lparr>v_addr = a, v_type = TArray n t, v_ro = ro\<rparr>
         (Some (FieldReadData False (Some 0) [] [] el)) ps st
     = array_loop E sv \<lparr>v_addr = a, v_type = TArray n t, v_ro = ro\<rparr>
         (FieldReadData False (Some 0) [] [] el) ps 0 (int n) st"
    by (simp add: setValueToField_Some)
  have example:
    "(case setValueToField plain_env (single_record (TArray 3 TUint8)) (single_field (TArray 3 TUint8))
           (Some (with_length 0)) [] (bytes_state [1, 2, 3] [zero_value (Single (TArray 3 TUint8))]) of
      (res, st') \<Rightarrow>
        res = Ok \<and> load (heap st') (v_addr (single_field (TArray 3 TUint8))) = VArray [VUint 1, VUint 2, VUint 3]
        \<and> br_pos (rd st') = 3)"
    by code_simp
  from same full example show ?thesis
    by blast
qed

section \<open>Integer and float fields\<close>

lemma readIntSwitch_width:
  "k \<in> signed_kinds \<Longrightarrow>
   readIntSwitch R (FieldReadData ig len offs fn el) k r =
     (case selected_width len k of
        None \<Rightarrow> (Inl (ErrorNew ''need set tag with len or use int8/int16/int32/int64''), r)
      | Some w \<Rightarrow> read_signed R w r)"
  by (cases len)
    (auto simp: signed_kinds_def readIntSwitch_def selected_width_def read_signed_def)

lemma readUintSwitch_width:
  "k \<in> unsigned_kinds \<Longrightarrow>
   readUintSwitch R (FieldReadData ig len offs fn el) k r =
     (case selected_width len k of
        None \<Rightarrow> (Inl (ErrorNew ''need set tag with len or use uint8/uint16/uint32/uint64''), r)
      | Some w \<Rightarrow> read_unsigned R w r)"
  by (cases len)
    (auto simp: unsigned_kinds_def readUintSwitch_def selected_width_def read_unsigned_def)

lemma setValueToField_scalar:
  "kind_of (v_type fv) \<notin> {KSlice, KArray, KStruct} \<Longrightarrow>
   setValueToField E sv fv (Some (FieldReadData False len [] [] el)) ps st
     = setScalar E fv (FieldReadData False len [] [] el) st"
  by (simp add: setValueToField_Some)

lemma setScalar_signed:
  "kind_of (v_type fv) \<in> signed_kinds \<Longrightarrow>
   setScalar E fv fd st =
     read_and_set fv (SetInt (kind_of (v_type fv)))
       (readIntSwitch (reader E) fd (kind_of (v_type fv)) (rd st)) st"
  by (auto simp: setScalar_def Let_def signed_kinds_def)

lemma setScalar_unsigned:
  "kind_of (v_type fv) \<in> unsigned_kinds \<Longrightarrow>
   setScalar E fv fd st =
     read_and_set fv (SetUint (kind_of (v_type fv)))
       (readUintSwitch (reader E) fd (kind_of (v_type fv)) (rd st)) st"
  by (auto simp: setScalar_def Let_def unsigned_kinds_def)

lemma not_container:
  "k \<in> signed_kinds \<union> unsigned_kinds \<union> {KFloat32, KFloat64} \<Longrightarrow> k \<notin> {KSlice, KArray, KStruct}"
  by (auto simp: signed_kinds_def unsigned_kinds_def)

text \<open>
  C2, as amended. For a signed or unsigned integer field decoded by the built-in case,
  the width read is the smaller of the width the directive length asks for (8, 16, 32
  or 64 bits for a length of 1, 2, 4 or 8) and the width of the field's own type when
  that is fixed: the read of that width runs, its error is returned as it is, its value
  is written if the field can be set. So on a generic-width field the length alone
  selects the width, and with no length a fixed-width type is read at its own width.
  When neither gives a width (a generic-width field with no length, or a length other
  than 1, 2, 4, 8) the field fails with an error whose message starts with
  "need set tag with len", and the state is unchanged: nothing is read, nothing is
  written.
\<close>

theorem integer_read_width:
  "(kind_of (v_type fv) \<in> signed_kinds \<longrightarrow>
      setValueToField E sv fv (Some (FieldReadData False len [] [] el)) ps st =
        (case selected_width len (kind_of (v_type fv)) of
           None \<Rightarrow> (Err (ErrorNew ''need set tag with len or use int8/int16/int32/int64''), st)
         | Some w \<Rightarrow>
             read_and_set fv (SetInt (kind_of (v_type fv))) (read_signed (reader E) w (rd st)) st))
   \<and> (kind_of (v_type fv) \<in> unsigned_kinds \<longrightarrow>
      setValueToField E sv fv (Some (FieldReadData False len [] [] el)) ps st =
        (case selected_width len (kind_of (v_type fv)) of
           None \<Rightarrow> (Err (ErrorNew ''need set tag with len or use uint8/uint16/uint32/uint64''), st)
         | Some w \<Rightarrow>
             read_and_set fv (SetUint (kind_of (v_type fv))) (read_unsigned (reader E) w (rd st)) st))
   \<and> selected_width len KInt = length_width len
   \<and> selected_width len KUint = length_width len
   \<and> selected_width None k = type_width k
   \<and> prefix ''need set tag with len''
        (Error (ErrorNew ''need set tag with len or use int8/int16/int32/int64''))
   \<and> prefix ''need set tag with len''
        (Error (ErrorNew ''need set tag with len or use uint8/uint16/uint32/uint64''))"
proof (intro conjI impI)
  assume k: "kind_of (v_type fv) \<in> signed_kinds"
  show "setValueToField E sv fv (Some (FieldReadData False len [] [] el)) ps st =
        (case selected_width len (kind_of (v_type fv)) of
           None \<Rightarrow> (Err (ErrorNew ''need set tag with len or use int8/int16/int32/int64''), st)
         | Some w \<Rightarrow>
             read_and_set fv (SetInt (kind_of (v_type fv))) (read_signed (reader E) w (rd st)) st)"
    using k not_container [of "kind_of (v_type fv)"]
    by (simp add: setValueToField_scalar setScalar_signed readIntSwitch_width
        read_and_set_def split: option.split)
next
  assume k: "kind_of (v_type fv) \<in> unsigned_kinds"
  show "setValueToField E sv fv (Some (FieldReadData False len [] [] el)) ps st =
        (case selected_width len (kind_of (v_type fv)) of
           None \<Rightarrow> (Err (ErrorNew ''need set tag with len or use uint8/uint16/uint32/uint64''), st)
         | Some w \<Rightarrow>
             read_and_set fv (SetUint (kind_of (v_type fv))) (read_unsigned (reader E) w (rd st)) st)"
    using k not_container [of "kind_of (v_type fv)"]
    by (simp add: setValueToField_scalar setScalar_unsigned readUintSwitch_width
        read_and_set_def split: option.split)
next
  show "selected_width len KInt = length_width len"
    by (simp add: selected_width_def split: option.split)
next
  show "selected_width len KUint = length_width len"
    by (simp add: selected_width_def split: option.split)
next
  show "selected_width None k = type_width k"
    by (simp add: selected_width_def split: option.split)
next
  show "prefix ''need set tag with len''
        (Error (ErrorNew ''need set tag with len or use int8/int16/int32/int64''))"
    by simp
next
  show "prefix ''need set tag with len''
        (Error (ErrorNew ''need set tag with len or use uint8/uint16/uint32/uint64''))"
    by simp
qed

text \<open>Witness for C2: a signed 32-bit field with no length over the bytes 01 00 00 00
  of the little-endian reader decodes to 1, and the cursor ends at 4.\<close>

theorem int32_without_length:
  "kind_of (v_type (single_field TInt32)) \<in> signed_kinds
   \<and> setValueToField plain_env (single_record TInt32) (single_field TInt32)
        (Some (FieldReadData False None [] [] None)) []
        (bytes_state [1, 0, 0, 0] [zero_value (Single TInt32)])
      = (Ok, \<lparr>rd = \<lparr>br_buf = [1, 0, 0, 0], br_pos = 4\<rparr>, heap = [VStruct [VInt 1]]\<rparr>)"
proof -
  have k: "kind_of (v_type (single_field TInt32)) \<in> signed_kinds"
    by (simp add: single_field_def FieldAt_def signed_kinds_def)
  have "setValueToField plain_env (single_record TInt32) (single_field TInt32)
        (Some (FieldReadData False None [] [] None)) []
        (bytes_state [1, 0, 0, 0] [zero_value (Single TInt32)])
      = (case selected_width None (kind_of (v_type (single_field TInt32))) of
           None \<Rightarrow> (Err (ErrorNew ''need set tag with len or use int8/int16/int32/int64''),
                     bytes_state [1, 0, 0, 0] [zero_value (Single TInt32)])
         | Some w \<Rightarrow>
             read_and_set (single_field TInt32) (SetInt (kind_of (v_type (single_field TInt32))))
               (read_signed (reader plain_env) w (rd (bytes_state [1, 0, 0, 0] [zero_value (Single TInt32)])))
               (bytes_state [1, 0, 0, 0] [zero_value (Single TInt32)]))"
    using k integer_read_width [of "single_field TInt32" plain_env "single_record TInt32" None None "[]"
        "bytes_state [1, 0, 0, 0] [zero_value (Single TInt32)]"]
    by blast
  also have "\<dots> = (Ok, \<lparr>rd = \<lparr>br_buf = [1, 0, 0, 0], br_pos = 4\<rparr>, heap = [VStruct [VInt 1]]\<rparr>)"
    by code_simp
  finally show ?thesis
    using k by simp
qed

text \<open>
  C2 as stated fails: a length of 2 does not select a 16-bit read on an \<^verbatim>\<open>int8\<close> field.
  The first case of the \<^verbatim>\<open>switch\<close> holds by the field's kind, one byte is read (the
  cursor ends at 1 and the field holds 1), where the 16-bit read gives 513.
\<close>

theorem int8_with_length_2:
  "setValueToField plain_env (single_record TInt8) (single_field TInt8)
        (Some (with_length 2)) [] (bytes_state [1, 2] [zero_value (Single TInt8)])
      = (Ok, \<lparr>rd = \<lparr>br_buf = [1, 2], br_pos = 1\<rparr>, heap = [VStruct [VInt 1]]\<rparr>)
   \<and> fst (ReadInt16 le_reader \<lparr>br_buf = [1, 2], br_pos = 0\<rparr>) = Inr 513"
  by code_simp


lemma selected_width_other_length:
  "n \<notin> {1, 2, 4, 8} \<Longrightarrow> selected_width (Some n) k = type_width k"
  by (simp add: selected_width_def split: option.split)

lemma setScalar_float:
  "kind_of (v_type fv) \<in> {KFloat32, KFloat64} \<Longrightarrow>
   setScalar E fv (FieldReadData False len [] [] el) st = setScalar E fv (FieldReadData False None [] [] el) st"
  by (auto simp: setScalar_def Let_def)

text \<open>
  C6, as amended. A directive length that is present and not one of 1, 2, 4, 8 makes
  the decode of the field fail only when the field is a generic-width integer
  (\<^verbatim>\<open>int\<close>, \<^verbatim>\<open>uint\<close>): then the error is "need set tag with len or use ..." and the state
  is unchanged. A fixed-width integer field and a float field are decoded exactly as
  with no length at all.
\<close>

theorem length_outside_1_2_4_8:
  assumes "n \<notin> {1, 2, 4, 8}"
  shows
    "(kind_of (v_type fv) = KInt \<longrightarrow>
        setValueToField E sv fv (Some (FieldReadData False (Some n) [] [] el)) ps st
          = (Err (ErrorNew ''need set tag with len or use int8/int16/int32/int64''), st))
     \<and> (kind_of (v_type fv) = KUint \<longrightarrow>
        setValueToField E sv fv (Some (FieldReadData False (Some n) [] [] el)) ps st
          = (Err (ErrorNew ''need set tag with len or use uint8/uint16/uint32/uint64''), st))
     \<and> (kind_of (v_type fv) \<in> {KInt8, KInt16, KInt32, KInt64, KUint8, KUint16, KUint32, KUint64} \<longrightarrow>
        setValueToField E sv fv (Some (FieldReadData False (Some n) [] [] el)) ps st
          = setValueToField E sv fv (Some (FieldReadData False None [] [] el)) ps st)
     \<and> (kind_of (v_type fv) \<in> {KFloat32, KFloat64} \<longrightarrow>
        setValueToField E sv fv (Some (FieldReadData False (Some n) [] [] el)) ps st
          = setValueToField E sv fv (Some (FieldReadData False None [] [] el)) ps st)"
proof (intro conjI impI)
  assume k: "kind_of (v_type fv) = KInt"
  then have "kind_of (v_type fv) \<in> signed_kinds"
    by (simp add: signed_kinds_def)
  with k assms show "setValueToField E sv fv (Some (FieldReadData False (Some n) [] [] el)) ps st
          = (Err (ErrorNew ''need set tag with len or use int8/int16/int32/int64''), st)"
    by (simp add: setValueToField_scalar setScalar_signed readIntSwitch_width
        selected_width_other_length read_and_set_def)
next
  assume k: "kind_of (v_type fv) = KUint"
  then have "kind_of (v_type fv) \<in> unsigned_kinds"
    by (simp add: unsigned_kinds_def)
  with k assms show "setValueToField E sv fv (Some (FieldReadData False (Some n) [] [] el)) ps st
          = (Err (ErrorNew ''need set tag with len or use uint8/uint16/uint32/uint64''), st)"
    by (simp add: setValueToField_scalar setScalar_unsigned readUintSwitch_width
        selected_width_other_length read_and_set_def)
next
  assume k: "kind_of (v_type fv) \<in> {KInt8, KInt16, KInt32, KInt64, KUint8, KUint16, KUint32, KUint64}"
  then consider "kind_of (v_type fv) \<in> signed_kinds" | "kind_of (v_type fv) \<in> unsigned_kinds"
    by (auto simp: signed_kinds_def unsigned_kinds_def)
  then show "setValueToField E sv fv (Some (FieldReadData False (Some n) [] [] el)) ps st
          = setValueToField E sv fv (Some (FieldReadData False None [] [] el)) ps st"
  proof cases
    case 1
    with assms not_container [of "kind_of (v_type fv)"] show ?thesis
      by (simp add: setValueToField_scalar setScalar_signed readIntSwitch_width
          selected_width_other_length selected_width_def)
  next
    case 2
    with assms not_container [of "kind_of (v_type fv)"] show ?thesis
      by (simp add: setValueToField_scalar setScalar_unsigned readUintSwitch_width
          selected_width_other_length selected_width_def)
  qed
next
  assume k: "kind_of (v_type fv) \<in> {KFloat32, KFloat64}"
  then have nc: "kind_of (v_type fv) \<notin> {KSlice, KArray, KStruct}"
    by auto
  show "setValueToField E sv fv (Some (FieldReadData False (Some n) [] [] el)) ps st
          = setValueToField E sv fv (Some (FieldReadData False None [] [] el)) ps st"
    by (simp only: setValueToField_scalar [OF nc] setScalar_float [OF k, of E "Some n" el st])
qed

text \<open>Witness for C6: an \<^verbatim>\<open>int\<close> field with length 3 fails and reads nothing.\<close>

theorem generic_int_with_length_3:
  "(3::int) \<notin> {1, 2, 4, 8}
   \<and> kind_of (v_type (single_field TInt)) = KInt
   \<and> setValueToField plain_env (single_record TInt) (single_field TInt) (Some (with_length 3)) []
        (bytes_state [1, 0, 0, 0] [zero_value (Single TInt)])
      = (Err (ErrorNew ''need set tag with len or use int8/int16/int32/int64''),
         bytes_state [1, 0, 0, 0] [zero_value (Single TInt)])"
proof -
  have n: "(3::int) \<notin> {1, 2, 4, 8}"
    by simp
  have k: "kind_of (v_type (single_field TInt)) = KInt"
    by (simp add: single_field_def FieldAt_def)
  from length_outside_1_2_4_8 [OF n, of "single_field TInt" plain_env "single_record TInt" None "[]"
      "bytes_state [1, 0, 0, 0] [zero_value (Single TInt)]"] k n
  show ?thesis
    by (simp add: with_length_def)
qed

text \<open>
  C6 as stated fails: with length 3, an \<^verbatim>\<open>int32\<close> field and a \<^verbatim>\<open>float32\<close> field are
  decoded without error, by a 32-bit read.
\<close>

theorem fixed_width_with_length_3:
  "setValueToField plain_env (single_record TInt32) (single_field TInt32) (Some (with_length 3)) []
        (bytes_state [1, 0, 0, 0] [zero_value (Single TInt32)])
      = (Ok, \<lparr>rd = \<lparr>br_buf = [1, 0, 0, 0], br_pos = 4\<rparr>, heap = [VStruct [VInt 1]]\<rparr>)
   \<and> setValueToField plain_env (single_record TFloat32) (single_field TFloat32) (Some (with_length 3)) []
        (bytes_state [1, 0, 0, 0] [zero_value (Single TFloat32)])
      = (Ok, \<lparr>rd = \<lparr>br_buf = [1, 0, 0, 0], br_pos = 4\<rparr>, heap = [VStruct [VFloat32 1]]\<rparr>)"
  by code_simp

section \<open>Delegate routines\<close>

lemma singleton_iff: "(length xs = 1 \<and> xs ! 0 = a) = (xs = [a])"
  by (cases xs) auto

lemma pair_iff: "(length xs = 2 \<and> xs ! 0 = a \<and> xs ! 1 = b) = (xs = [a, b])"
proof (cases xs)
  case Nil
  then show ?thesis by simp
next
  case (Cons x ys)
  then show ?thesis by (cases ys) auto
qed

lemma callFunc_shapes:
  "callFunc E funcName structValue fieldValue st =
     (case methods E (v_type structValue) funcName of
        None \<Rightarrow> ((False, None), st)
      | Some m \<Rightarrow>
          if m_in m = [readerType] then
            (case m_call m (rd st) (load (heap st) (v_addr structValue)) of
               (ret, r', recv') \<Rightarrow>
                 let st' = st\<lparr>rd := r', heap := store (heap st) (v_addr structValue) recv'\<rparr> in
                 if m_out m = [errorType] then
                   (case ret_error ret 0 of
                      Some err \<Rightarrow> ((True, Some err), st')
                    | None \<Rightarrow> ((True, None), st'))
                 else if m_out m = [v_type fieldValue, errorType] then
                   (case ret_error ret 1 of
                      Some err \<Rightarrow> ((True, Some err), st')
                    | None \<Rightarrow>
                        ((True, None),
                         if CanSet fieldValue
                         then st'\<lparr>heap := store (heap st') (v_addr fieldValue) (ret_value ret 0)\<rparr>
                         else st'))
                 else ((False, None), st'))
          else ((False, None), st))"
  unfolding callFunc_def singleton_iff pair_iff by (rule refl)

lemma callFunc_matched: "fst (fst (callFunc E fn sv fv st)) = compatible E fn fv sv"
  by (auto simp: callFunc_shapes compatible_def Let_def split: option.split prod.split)

lemma callFunc_no_match:
  "\<not> compatible E fn fv sv \<Longrightarrow> fst (callFunc E fn sv fv st) = (False, None)"
  by (auto simp: callFunc_shapes compatible_def Let_def split: option.split prod.split)

text \<open>
  C5, as amended. \<^verbatim>\<open>callFunc\<close> reports a match exactly when the record offers a compatible
  routine: a method reachable by that name, whose only parameter is the reader, and
  whose results are either one \<^verbatim>\<open>error\<close>, or a value of exactly the field's static type
  and an \<^verbatim>\<open>error\<close>. With any other shape it reports no match and no error.
\<close>

theorem callFunc_match_iff:
  "fst (fst (callFunc E fn sv fv st)) = compatible E fn fv sv
   \<and> (fst (fst (callFunc E fn sv fv st)) \<or> snd (fst (callFunc E fn sv fv st)) = None)"
proof -
  have "fst (fst (callFunc E fn sv fv st)) \<or> snd (fst (callFunc E fn sv fv st)) = None"
    using callFunc_no_match [of E fn fv sv st] callFunc_matched [of E fn sv fv st]
    by (cases "compatible E fn fv sv") simp_all
  then show ?thesis
    by (simp add: callFunc_matched)
qed

text \<open>
  C5 as stated fails: a routine that returns \<^verbatim>\<open>(int32, error)\<close> returns a value that can be
  assigned to a field of type \<^verbatim>\<open>interface {}\<close>, it is reachable by name and takes the
  reader alone, and \<^verbatim>\<open>callFunc\<close> reports no match for that field.
\<close>

theorem assignable_result_is_no_match:
  "assignable_to TInt32 (v_type (single_field emptyInterfaceType))
   \<and> (case methods holder_env (v_type (single_record emptyInterfaceType)) ''ReadValue'' of
        None \<Rightarrow> False
      | Some m \<Rightarrow> m_in m = [readerType] \<and> m_out m = [TInt32, errorType])
   \<and> fst (callFunc holder_env ''ReadValue'' (single_record emptyInterfaceType)
            (single_field emptyInterfaceType) (bytes_state [5, 0, 0, 0] [VStruct [VNil]]))
      = (False, None)"
  by code_simp

lemma update_path_lookup:
  "update_path v p (case lookup_path v p of Some w \<Rightarrow> w | None \<Rightarrow> x) = v"
  by (induction v p rule: lookup_path.induct) (simp_all add: list_update_same_conv)

lemma store_load_same: "store h a (load h a) = h"
  by (simp add: store_def load_def update_path_lookup)

text \<open>
  C7. When the record has a routine of the value-returning shape for the field and
  the call returns a nil error, \<^verbatim>\<open>callFunc\<close> reports a match without error, and the
  returned value is written into the field only if the field can be set. For a field
  that cannot be set, the state is the one the call itself left (the reader as the
  routine moved it, the receiver as the routine left it): the value is dropped, and
  if the routine did not change its receiver, memory is as before. In both cases the
  decode of the field returns nil, so the decode goes on.
\<close>

theorem value_delegate_write:
  assumes "methods E (v_type sv) fn = Some m"
    and "m_in m = [readerType]"
    and "m_out m = [v_type fv, errorType]"
    and "m_call m (rd st) (load (heap st) (v_addr sv)) = (ret, r', recv')"
    and "ret_error ret 1 = None"
    and "fn \<noteq> []"
  shows
    "callFunc E fn sv fv st =
       ((True, None),
        if CanSet fv
        then st\<lparr>rd := r', heap := store (store (heap st) (v_addr sv) recv') (v_addr fv) (ret_value ret 0)\<rparr>
        else st\<lparr>rd := r', heap := store (heap st) (v_addr sv) recv'\<rparr>)
     \<and> fst (setValueToField E sv fv (Some (FieldReadData False len [] fn el)) ps st) = Ok
     \<and> snd (setValueToField E sv fv (Some (FieldReadData False len [] fn el)) ps st)
         = snd (callFunc E fn sv fv st)
     \<and> (\<not> CanSet fv \<and> recv' = load (heap st) (v_addr sv) \<longrightarrow>
          heap (snd (callFunc E fn sv fv st)) = heap st)"
proof -
  have call: "callFunc E fn sv fv st =
       ((True, None),
        if CanSet fv
        then st\<lparr>rd := r', heap := store (store (heap st) (v_addr sv) recv') (v_addr fv) (ret_value ret 0)\<rparr>
        else st\<lparr>rd := r', heap := store (heap st) (v_addr sv) recv'\<rparr>)"
    using assms by (simp add: callFunc_shapes Let_def)
  have field: "setValueToField E sv fv (Some (FieldReadData False len [] fn el)) ps st
      = (Ok, snd (callFunc E fn sv fv st))"
    using assms(6) by (simp add: setValueToField_Some setValueByFunc_def call)
  have same: "\<not> CanSet fv \<and> recv' = load (heap st) (v_addr sv) \<longrightarrow>
          heap (snd (callFunc E fn sv fv st)) = heap st"
    by (simp add: call store_load_same)
  from call field same show ?thesis
    by simp
qed

text \<open>Witness for C7: an unexported \<^verbatim>\<open>int32\<close> field whose routine reads 5 keeps the value
  0, the four bytes are consumed and no error is returned.\<close>

theorem hidden_field_keeps_its_value:
  "\<not> CanSet hidden_field
   \<and> callFunc hidden_env ''ReadValue'' (Elem hidden_record (0, [])) hidden_field
         (bytes_state [5, 0, 0, 0] [VStruct [VInt 0]])
       = ((True, None), \<lparr>rd = \<lparr>br_buf = [5, 0, 0, 0], br_pos = 4\<rparr>, heap = [VStruct [VInt 0]]\<rparr>)
   \<and> setValueToField hidden_env (Elem hidden_record (0, [])) hidden_field
         (Some (FieldReadData False None [] ''ReadValue'' None)) []
         (bytes_state [5, 0, 0, 0] [VStruct [VInt 0]])
       = (Ok, \<lparr>rd = \<lparr>br_buf = [5, 0, 0, 0], br_pos = 4\<rparr>, heap = [VStruct [VInt 0]]\<rparr>)"
proof -
  let ?st = "bytes_state [5, 0, 0, 0] [VStruct [VInt 0]]"
  let ?sv = "Elem hidden_record (0, [])"
  have ro: "\<not> CanSet hidden_field"
    by (simp add: hidden_field_def FieldAt_def CanSet_def)
  have m: "methods hidden_env (v_type ?sv) ''ReadValue'' = Some read_int32_value"
    by (simp add: hidden_env_def table_env_def method_table_def Elem_def)
  have i: "m_in read_int32_value = [readerType]"
    by (simp add: read_int32_value_def)
  have out: "m_out read_int32_value = [v_type hidden_field, errorType]"
    by (simp add: read_int32_value_def hidden_field_def FieldAt_def)
  have c: "m_call read_int32_value (rd ?st) (load (heap ?st) (v_addr ?sv))
      = ([VInt 5, VError None], \<lparr>br_buf = [5, 0, 0, 0], br_pos = 4\<rparr>, VStruct [VInt 0])"
    by code_simp
  have e: "ret_error [VInt 5, VError None] 1 = None"
    by (simp add: ret_error_def ret_value_def)
  have n: "''ReadValue'' \<noteq> []"
    by simp
  have "store (heap ?st) (v_addr ?sv) (VStruct [VInt 0]) = [VStruct [VInt 0]]"
    by code_simp
  with value_delegate_write [OF m i out c e n, of None None "[]"] ro
  show ?thesis
    by (cases "setValueToField hidden_env ?sv hidden_field
         (Some (FieldReadData False None [] ''ReadValue'' None)) [] ?st")
      (simp add: bytes_state_def)
qed

lemma probe_Cons: "probe E fn fv (c # cs) st = probe E fn fv cs (snd (callFunc E fn c fv st))"
  by (simp add: probe_def)

lemma callFuncParents_first:
  "k < length cs \<Longrightarrow> compatible E fn fv (cs ! k) \<Longrightarrow> \<forall>j<k. \<not> compatible E fn fv (cs ! j) \<Longrightarrow>
   callFuncParents E fn cs fv st =
     ((True, snd (fst (callFunc E fn (cs ! k) fv (probe E fn fv (take k cs) st)))),
      snd (callFunc E fn (cs ! k) fv (probe E fn fv (take k cs) st)))"
proof (induction cs arbitrary: k st)
  case Nil
  then show ?case by simp
next
  case (Cons c cs)
  show ?case
  proof (cases k)
    case 0
    with Cons.prems(2) have "fst (fst (callFunc E fn c fv st))"
      by (simp add: callFunc_matched)
    with 0 show ?thesis
      by (cases "callFunc E fn c fv st") (auto simp: probe_def split: option.split)
  next
    case (Suc k')
    with Cons.prems(3) have "\<not> compatible E fn fv c"
      by auto
    then have c: "fst (callFunc E fn c fv st) = (False, None)"
      by (rule callFunc_no_match)
    have k': "k' < length cs" "compatible E fn fv (cs ! k')" "\<forall>j<k'. \<not> compatible E fn fv (cs ! j)"
      using Cons.prems Suc by auto
    from Cons.IH [OF k', of "snd (callFunc E fn c fv st)"] c Suc show ?thesis
      by (cases "callFunc E fn c fv st") (simp add: probe_Cons)
  qed
qed

lemma callFuncParents_none:
  "\<forall>c\<in>set cs. \<not> compatible E fn fv c \<Longrightarrow>
   callFuncParents E fn cs fv st = ((False, None), probe E fn fv cs st)"
proof (induction cs arbitrary: st)
  case Nil
  then show ?case by (simp add: probe_def)
next
  case (Cons c cs)
  then have "fst (callFunc E fn c fv st) = (False, None)"
    by (simp add: callFunc_no_match)
  with Cons show ?case
    by (cases "callFunc E fn c fv st") (simp add: probe_Cons)
qed

lemma setValueByFunc_chain:
  "setValueByFunc E sv fv fd ps st =
     (case callFuncParents E (FuncName fd) (sv # rev ps) fv st of
        ((ok, Some err), st') \<Rightarrow> (Err (Wrapped err ''call custom func''), st')
      | ((True, None), st') \<Rightarrow> (Ok, st')
      | ((False, None), st') \<Rightarrow> (Err (ErrorNew (failed_call_message sv (FuncName fd) fv)), st'))"
  by (auto simp: setValueByFunc_def split: prod.split option.split bool.split)

lemma failed_call_message_eq:
  "failed_call_message sv fn fv =
     [CHR 0x0A] @ ''failed call method, expected methods:'' @ [CHR 0x0A, CHR 0x09]
     @ ''func (*'' @ type_name (v_type sv) @ '') '' @ fn @ ''(r binstruct.Reader) error {} '' @ [CHR 0x0A]
     @ ''or'' @ [CHR 0x0A, CHR 0x09]
     @ ''func (*'' @ type_name (v_type sv) @ '') '' @ fn @ ''(r binstruct.Reader) (''
     @ type_string (v_type fv) @ '', error) {}'' @ [CHR 0x0A]"
  by (simp add: failed_call_message_def message_template_def)

text \<open>
  C1. For a field whose directive names a routine, the records are tried in the
  order: the record being decoded, then the enclosing records from the nearest to the
  outermost (\<open>sv # rev ps\<close>). If the record at position \<open>k\<close> is the first that offers a
  compatible routine, the outcome of the field is the outcome of that routine's call
  (nil, or its error wrapped with "call custom func"), run in the state left by the
  tries on the records before it, and no later record is tried. If no record offers a
  compatible routine, the decode of the field fails with an error whose message names
  the two accepted signatures, the type name of the record that declares the field,
  the routine's name and the static type of the field.
\<close>

theorem delegate_resolution_order:
  assumes "fn \<noteq> []"
  shows
    "(k < length (sv # rev ps) \<and> compatible E fn fv ((sv # rev ps) ! k)
        \<and> (\<forall>j<k. \<not> compatible E fn fv ((sv # rev ps) ! j)) \<longrightarrow>
      setValueToField E sv fv (Some (FieldReadData False len [] fn el)) ps st =
        (case callFunc E fn ((sv # rev ps) ! k) fv (probe E fn fv (take k (sv # rev ps)) st) of
           ((ok, None), st') \<Rightarrow> (Ok, st')
         | ((ok, Some err), st') \<Rightarrow> (Err (Wrapped err ''call custom func''), st')))
     \<and> ((\<forall>c\<in>set (sv # rev ps). \<not> compatible E fn fv c) \<longrightarrow>
      setValueToField E sv fv (Some (FieldReadData False len [] fn el)) ps st =
        (Err (ErrorNew (failed_call_message sv fn fv)), probe E fn fv (sv # rev ps) st))
     \<and> failed_call_message sv fn fv =
         [CHR 0x0A] @ ''failed call method, expected methods:'' @ [CHR 0x0A, CHR 0x09]
         @ ''func (*'' @ type_name (v_type sv) @ '') '' @ fn @ ''(r binstruct.Reader) error {} '' @ [CHR 0x0A]
         @ ''or'' @ [CHR 0x0A, CHR 0x09]
         @ ''func (*'' @ type_name (v_type sv) @ '') '' @ fn @ ''(r binstruct.Reader) (''
         @ type_string (v_type fv) @ '', error) {}'' @ [CHR 0x0A]"
proof (intro conjI impI)
  assume a: "k < length (sv # rev ps) \<and> compatible E fn fv ((sv # rev ps) ! k)
        \<and> (\<forall>j<k. \<not> compatible E fn fv ((sv # rev ps) ! j))"
  have "callFuncParents E fn (sv # rev ps) fv st =
     ((True, snd (fst (callFunc E fn ((sv # rev ps) ! k) fv (probe E fn fv (take k (sv # rev ps)) st)))),
      snd (callFunc E fn ((sv # rev ps) ! k) fv (probe E fn fv (take k (sv # rev ps)) st)))"
    using a by (intro callFuncParents_first) blast+
  moreover obtain ok e st' where
    r: "callFunc E fn ((sv # rev ps) ! k) fv (probe E fn fv (take k (sv # rev ps)) st) = ((ok, e), st')"
    by (metis surj_pair)
  ultimately have "callFuncParents E fn (sv # rev ps) fv st = ((True, e), st')"
    by simp
  then show "setValueToField E sv fv (Some (FieldReadData False len [] fn el)) ps st =
        (case callFunc E fn ((sv # rev ps) ! k) fv (probe E fn fv (take k (sv # rev ps)) st) of
           ((ok, None), st') \<Rightarrow> (Ok, st')
         | ((ok, Some err), st') \<Rightarrow> (Err (Wrapped err ''call custom func''), st'))"
    using assms
    by (cases e) (simp_all add: setValueToField_Some setValueByFunc_chain r del: callFuncParents.simps)
next
  assume "\<forall>c\<in>set (sv # rev ps). \<not> compatible E fn fv c"
  then have "callFuncParents E fn (sv # rev ps) fv st = ((False, None), probe E fn fv (sv # rev ps) st)"
    by (rule callFuncParents_none)
  then show "setValueToField E sv fv (Some (FieldReadData False len [] fn el)) ps st =
        (Err (ErrorNew (failed_call_message sv fn fv)), probe E fn fv (sv # rev ps) st)"
    using assms by (simp add: setValueToField_Some setValueByFunc_chain del: callFuncParents.simps)
next
  show "failed_call_message sv fn fv =
         [CHR 0x0A] @ ''failed call method, expected methods:'' @ [CHR 0x0A, CHR 0x09]
         @ ''func (*'' @ type_name (v_type sv) @ '') '' @ fn @ ''(r binstruct.Reader) error {} '' @ [CHR 0x0A]
         @ ''or'' @ [CHR 0x0A, CHR 0x09]
         @ ''func (*'' @ type_name (v_type sv) @ '') '' @ fn @ ''(r binstruct.Reader) (''
         @ type_string (v_type fv) @ '', error) {}'' @ [CHR 0x0A]"
    by (rule failed_call_message_eq)
qed

text \<open>The example of the specification, run through \<^verbatim>\<open>Unmarshal\<close>: the routine is declared
  on the outermost of three nested records only, and the innermost record's field is
  decoded by it.\<close>

lemma nested_record_example:
  "Unmarshal nested_env (Ptr Outer (0, [])) (bytes_state [5, 0, 0, 0] [zero_value Outer])
     = (Ok, \<lparr>rd = \<lparr>br_buf = [5, 0, 0, 0], br_pos = 4\<rparr>, heap = [VStruct [VStruct [VStruct [VInt 5]]]]\<rparr>)"
  by code_simp

text \<open>Witness for C1: the same field, with the chain of enclosing records given.\<close>

theorem routine_on_outermost_record:
  "''ReadValue'' \<noteq> []
   \<and> compatible nested_env ''ReadValue'' inner_field (Elem Outer (0, []))
   \<and> \<not> compatible nested_env ''ReadValue'' inner_field (Elem Middle (0, [0]))
   \<and> \<not> compatible nested_env ''ReadValue'' inner_field (Elem Inner (0, [0, 0]))
   \<and> setValueToField nested_env (Elem Inner (0, [0, 0])) inner_field
        (Some (FieldReadData False None [] ''ReadValue'' None))
        [Elem Outer (0, []), Elem Middle (0, [0])]
        (bytes_state [5, 0, 0, 0] [zero_value Outer])
      = (Ok, \<lparr>rd = \<lparr>br_buf = [5, 0, 0, 0], br_pos = 4\<rparr>, heap = [VStruct [VStruct [VStruct [VInt 5]]]]\<rparr>)"
proof -
  let ?sv = "Elem Inner (0, [0, 0])"
  let ?ps = "[Elem Outer (0, []), Elem Middle (0, [0])]"
  let ?st = "bytes_state [5, 0, 0, 0] [zero_value Outer]"
  have n: "''ReadValue'' \<noteq> []"
    by simp
  have c2: "compatible nested_env ''ReadValue'' inner_field (Elem Outer (0, []))"
    by code_simp
  have c1: "\<not> compatible nested_env ''ReadValue'' inner_field (Elem Middle (0, [0]))"
    by code_simp
  have c0: "\<not> compatible nested_env ''ReadValue'' inner_field (Elem Inner (0, [0, 0]))"
    by code_simp
  have chain: "(2::nat) < length (?sv # rev ?ps) \<and> compatible nested_env ''ReadValue'' inner_field ((?sv # rev ?ps) ! 2)
        \<and> (\<forall>j<2. \<not> compatible nested_env ''ReadValue'' inner_field ((?sv # rev ?ps) ! j))"
    using c0 c1 c2 by (simp add: less_Suc_eq numeral_2_eq_2 nth_Cons')
  have "setValueToField nested_env ?sv inner_field (Some (FieldReadData False None [] ''ReadValue'' None)) ?ps ?st
      = (case callFunc nested_env ''ReadValue'' ((?sv # rev ?ps) ! 2) inner_field
               (probe nested_env ''ReadValue'' inner_field (take 2 (?sv # rev ?ps)) ?st) of
           ((ok, None), st') \<Rightarrow> (Ok, st')
         | ((ok, Some err), st') \<Rightarrow> (Err (Wrapped err ''call custom func''), st'))"
    using delegate_resolution_order [OF n, of 2 ?sv ?ps nested_env inner_field None None ?st] chain
    by blast
  also have "\<dots> = (Ok, \<lparr>rd = \<lparr>br_buf = [5, 0, 0, 0], br_pos = 4\<rparr>, heap = [VStruct [VStruct [VStruct [VInt 5]]]]\<rparr>)"
    by code_simp
  finally show ?thesis
    using n c0 c1 c2 by simp
qed

section \<open>The walk over a record\<close>

subsection \<open>The decoder writes only into the field it decodes\<close>

lemma length_store [simp]: "length (store h a w) = length h"
  by (simp add: store_def)

lemma store_append: "fst a < length h \<Longrightarrow> store (h @ e) a w = store h a w @ e"
  by (simp add: store_def nth_append list_update_append)

lemma update_update: "update_path (update_path v p w1) p w2 = update_path v p w2"
  by (induction v p w1 rule: update_path.induct) simp_all

lemma store_store: "store (store h a w1) a w2 = store h a w2"
  by (simp add: store_def update_update)

lemma only_at_refl: "only_at a h h"
  unfolding only_at_def using store_load_same [of h a] by (metis append_Nil2)

lemma only_at_store: "only_at a h (store h a w)"
  unfolding only_at_def by (metis append_Nil2)

lemma only_at_length: "only_at a h h' \<Longrightarrow> length h \<le> length h'"
  by (auto simp: only_at_def)

lemma only_at_trans:
  "fst a < length h \<Longrightarrow> only_at a h h1 \<Longrightarrow> only_at a h1 h2 \<Longrightarrow> only_at a h h2"
  by (auto simp: only_at_def store_append store_store)

lemma only_at_extend: "only_at a h h1 \<Longrightarrow> only_at a h (h1 @ e)"
  by (auto simp: only_at_def)

lemma update_path_append_ex: "\<exists>w'. update_path v (p @ q) w = update_path v p w'"
proof (induction v p w rule: update_path.induct)
  case (1 v w)
  then show ?case by simp
next
  case (2 vs i p w)
  then show ?case by (cases "i < length vs") (auto intro: exI [of _ w])
next
  case (3 vs i p w)
  then show ?case by (cases "i < length vs") (auto intro: exI [of _ w])
qed simp_all

lemma only_at_sub: "only_at (c, p @ q) h h' \<Longrightarrow> only_at (c, p) h h'"
proof -
  assume "only_at (c, p @ q) h h'"
  then obtain w ext where h': "h' = store h (c, p @ q) w @ ext"
    by (auto simp: only_at_def)
  show ?thesis
  proof (cases "c < length h")
    case True
    obtain w' where "update_path (h ! c) (p @ q) w = update_path (h ! c) p w'"
      using update_path_append_ex by blast
    with True h' have "h' = store h (c, p) w' @ ext"
      by (simp add: store_def)
    then show ?thesis
      by (auto simp: only_at_def)
  next
    case False
    with h' have "h' = store h (c, p) w @ ext"
      by (simp add: store_def)
    then show ?thesis
      by (auto simp: only_at_def)
  qed
qed

lemma only_at_new_cell:
  assumes "only_at (length h, p) (h @ [z]) h1"
  shows "only_at a h h1"
proof -
  from assms obtain w ext where "h1 = store (h @ [z]) (length h, p) w @ ext"
    by (auto simp: only_at_def)
  then have "h1 = h @ (update_path z p w # ext)"
    by (simp add: store_def)
  with only_at_extend [OF only_at_refl, of a h] show ?thesis
    by simp
qed

lemma callFunc_frame:
  assumes "receiver_preserving E"
  shows "only_at (v_addr fv) (heap st) (heap (snd (callFunc E fn sv fv st)))"
proof (cases "methods E (v_type sv) fn")
  case None
  then show ?thesis by (simp add: callFunc_shapes only_at_refl)
next
  case (Some m)
  obtain ret r' recv' where c: "m_call m (rd st) (load (heap st) (v_addr sv)) = (ret, r', recv')"
    by (metis surj_pair)
  with assms Some have "recv' = load (heap st) (v_addr sv)"
    unfolding receiver_preserving_def by (metis snd_conv)
  with Some c show ?thesis
    by (simp add: callFunc_shapes Let_def store_load_same only_at_refl only_at_store
        split: option.split)
qed

lemma callFunc_length: "length (heap (snd (callFunc E fn sv fv st))) = length (heap st)"
  by (simp add: callFunc_shapes Let_def split: option.split prod.split)

lemma callFuncParents_frame:
  assumes "receiver_preserving E"
  shows "fst (v_addr fv) < length (heap st) \<Longrightarrow>
         only_at (v_addr fv) (heap st) (heap (snd (callFuncParents E fn svs fv st)))"
proof (induction svs arbitrary: st)
  case Nil
  then show ?case by (simp add: only_at_refl)
next
  case (Cons sv svs)
  obtain ok e st' where c: "callFunc E fn sv fv st = ((ok, e), st')"
    by (metis surj_pair)
  have f: "only_at (v_addr fv) (heap st) (heap st')"
    using callFunc_frame [OF assms, of fv st fn sv] c by simp
  have l: "length (heap st') = length (heap st)"
    using callFunc_length [of E fn sv fv st] c by simp
  show ?case
  proof (cases "e = None \<and> \<not> ok")
    case True
    with c have "callFuncParents E fn (sv # svs) fv st = callFuncParents E fn svs fv st'"
      by simp
    moreover have "only_at (v_addr fv) (heap st') (heap (snd (callFuncParents E fn svs fv st')))"
      using Cons.IH [of st'] Cons.prems l by simp
    ultimately show ?thesis
      using only_at_trans [OF Cons.prems f] by simp
  next
    case False
    with c have "snd (callFuncParents E fn (sv # svs) fv st) = st'"
      by (cases e; cases ok) simp_all
    with f show ?thesis by simp
  qed
qed

lemma setValueByFunc_frame:
  assumes "receiver_preserving E" and "fst (v_addr fv) < length (heap st)"
  shows "only_at (v_addr fv) (heap st) (heap (snd (setValueByFunc E sv fv fd ps st)))"
proof -
  have "snd (setValueByFunc E sv fv fd ps st) = snd (callFuncParents E (FuncName fd) (sv # rev ps) fv st)"
    by (simp add: setValueByFunc_chain del: callFuncParents.simps split: prod.split option.split bool.split)
  with callFuncParents_frame [OF assms(1) assms(2), of "FuncName fd" "sv # rev ps"] show ?thesis
    by simp
qed

lemma read_and_set_frame:
  "only_at (v_addr fv) (heap st) (heap (snd (read_and_set fv mk res st)))"
  by (simp add: read_and_set_def set_if_can_def only_at_refl only_at_store
      split: prod.split sum.split)

lemma setScalar_frame:
  "only_at (v_addr fv) (heap st) (heap (snd (setScalar E fv fd st)))"
  by (simp add: setScalar_def Let_def read_and_set_frame only_at_refl)

lemma New_heap:
  "heap (snd (New t st)) = heap st @ [zero_value t]"
  "v_addr (fst (New t st)) = (length (heap st), [])"
  by (simp_all add: New_def)

lemma New_frame:
  assumes "only_at (v_addr (fst (New t st))) (heap (snd (New t st))) h1"
  shows "only_at a (heap st) h1"
  using assms only_at_new_cell [of "heap st" "[]" "zero_value t" h1 a]
  by (simp add: New_heap)

lemma AppendSet_frame: "only_at (v_addr fv) (heap st) (heap (AppendSet fv tmpV st))"
  by (simp add: AppendSet_def only_at_store)

lemma IndexSet_frame: "only_at (v_addr fv) (heap st) (heap (IndexSet fv i tmpV st))"
proof -
  have "only_at (fst (v_addr fv), snd (v_addr fv) @ [i]) (heap st) (heap (IndexSet fv i tmpV st))"
    by (simp add: IndexSet_def Index_def only_at_store)
  then show ?thesis
    using only_at_sub [of "fst (v_addr fv)" "snd (v_addr fv)" "[i]"] by simp
qed

lemma decoder_frame:
  fixes E :: "('r, 't) env" and E2 :: "('r, 't) env" and E3 :: "('r, 't) env"
    and E4 :: "('r, 't) env" and E5 :: "('r, 't) env"
  shows
    "receiver_preserving E \<longrightarrow>
       (\<forall>t a. v = Ptr t a \<longrightarrow> fst a < length (heap st) \<longrightarrow>
          only_at a (heap st) (heap (snd (unmarshal E v ps st))))"
    and "receiver_preserving E2 \<longrightarrow> fst (v_addr sv2) < length (heap st2) \<longrightarrow>
          only_at (v_addr sv2) (heap st2) (heap (snd (unmarshal_fields E2 sv2 i2 fs2 ps2 st2)))"
    and "receiver_preserving E3 \<longrightarrow> fst (v_addr fv3) < length (heap st3) \<longrightarrow>
          only_at (v_addr fv3) (heap st3) (heap (snd (setValueToField E3 sv3 fv3 fd3 ps3 st3)))"
    and "receiver_preserving E4 \<longrightarrow> fst (v_addr fv4) < length (heap st4) \<longrightarrow>
          only_at (v_addr fv4) (heap st4) (heap (snd (slice_loop E4 sv4 fv4 fd4 ps4 i4 n4 st4)))"
    and "receiver_preserving E5 \<longrightarrow> fst (v_addr fv5) < length (heap st5) \<longrightarrow>
          only_at (v_addr fv5) (heap st5) (heap (snd (array_loop E5 sv5 fv5 fd5 ps5 i5 n5 st5)))"
proof (induction E v ps st and E2 sv2 i2 fs2 ps2 st2 and E3 sv3 fv3 fd3 ps3 st3
    and E4 sv4 fv4 fd4 ps4 i4 n4 st4 and E5 sv5 fv5 fd5 ps5 i5 n5 st5
    rule: unmarshal_unmarshal_fields_setValueToField_slice_loop_array_loop.induct)
  case (1 E v ps st)
  show ?case
  proof (intro impI allI)
    fix t a
    assume rp: "receiver_preserving E" and v: "v = Ptr t a" and a: "fst a < length (heap st)"
    show "only_at a (heap st) (heap (snd (unmarshal E v ps st)))"
    proof (cases "struct_fields t")
      case None
      with v show ?thesis by (simp add: unmarshal.simps only_at_refl)
    next
      case (Some fs)
      from "1.IH" [OF v Some] rp a have "only_at a (heap st) (heap (snd (unmarshal_fields E (Elem t a) 0 fs ps st)))"
        by (simp add: Elem_def)
      with v Some show ?thesis by (simp add: unmarshal.simps)
    qed
  qed
next
  case (2 E sv i ps st)
  show ?case by (simp add: unmarshal_fields.simps only_at_refl)
next
  case (3 E sv i f rest ps st)
  show ?case
  proof (intro impI)
    assume rp: "receiver_preserving E" and a: "fst (v_addr sv) < length (heap st)"
    show "only_at (v_addr sv) (heap st) (heap (snd (unmarshal_fields E sv i (f # rest) ps st)))"
    proof (cases "parseTag E (ftag f)")
      case (Inl err)
      then show ?thesis by (simp add: unmarshal_fields.simps only_at_refl)
    next
      case (Inr tags)
      show ?thesis
      proof (cases "parseReadDataFromTags E (load (heap st) (v_addr sv)) tags")
        case (Inl err)
        with Inr show ?thesis by (simp add: unmarshal_fields.simps only_at_refl)
      next
        case fd: (Inr fd)
        obtain res st' where r: "setValueToField E sv (FieldAt sv i f) fd ps st = (res, st')"
          by (metis surj_pair)
        have "only_at (v_addr (FieldAt sv i f)) (heap st) (heap st')"
          using "3.IH"(1) [OF Inr fd] rp a r by (simp add: FieldAt_def)
        then have one: "only_at (v_addr sv) (heap st) (heap st')"
          using only_at_sub [of "fst (v_addr sv)" "snd (v_addr sv)" "[i]" "heap st" "heap st'"]
          by (simp add: FieldAt_def)
        show ?thesis
        proof (cases res)
          case Ok
          have a': "fst (v_addr sv) < length (heap st')"
            using a only_at_length [OF one] by simp
          have "only_at (v_addr sv) (heap st') (heap (snd (unmarshal_fields E sv (Suc i) rest ps st')))"
            using "3.IH"(2) [OF Inr fd r [symmetric] Ok] rp a' by simp
          with only_at_trans [OF a one] Inr fd r Ok show ?thesis
            by (simp add: unmarshal_fields.simps)
        next
          case (Err e)
          with Inr fd r one show ?thesis by (simp add: unmarshal_fields.simps)
        next
          case (Panic m)
          with Inr fd r one show ?thesis by (simp add: unmarshal_fields.simps)
        qed
      qed
    qed
  qed
next
  case (4 E sv fv fd ps st)
  show ?case
  proof (intro impI)
    assume rp: "receiver_preserving E" and a: "fst (v_addr fv) < length (heap st)"
    define d where "d = (case fd of None \<Rightarrow> emptyFieldData | Some d \<Rightarrow> d)"
    have eq: "setValueToField E sv fv fd ps st = setValueToField E sv fv (Some d) ps st"
      by (cases fd) (simp_all add: d_def setValueToField_None)
    obtain e r where off: "setOffset (reader E) (Offsets d) (rd st) = (e, r)"
      by (metis surj_pair)
    have h: "heap (st\<lparr>rd := r\<rparr>) = heap st"
      by simp
    show "only_at (v_addr fv) (heap st) (heap (snd (setValueToField E sv fv fd ps st)))"
    proof (cases "Ignore d \<or> e \<noteq> None")
      case True
      with off show ?thesis
        by (auto simp: eq setValueToField_Some only_at_refl)
    next
      case False
      then have ni: "\<not> Ignore d" and e: "e = None" by simp_all
      show ?thesis
      proof (cases "FuncName d \<noteq> []")
        case True
        with ni e off setValueByFunc_frame [OF rp, of fv "st\<lparr>rd := r\<rparr>" sv d ps] a show ?thesis
          by (simp add: eq setValueToField_Some)
      next
        case nf: False
        consider (slice) "kind_of (v_type fv) = KSlice"
          | (array) "kind_of (v_type fv) \<noteq> KSlice" "kind_of (v_type fv) = KArray"
          | (struct) "kind_of (v_type fv) \<noteq> KSlice" "kind_of (v_type fv) \<noteq> KArray" "kind_of (v_type fv) = KStruct"
          | (scalar) "kind_of (v_type fv) \<notin> {KSlice, KArray, KStruct}"
          by auto
        then show ?thesis
        proof cases
          case slice
          show ?thesis
          proof (cases "Length d = None")
            case True
            with ni e off nf slice show ?thesis
              by (simp add: eq setValueToField_Some only_at_refl)
          next
            case False
            from "4.IH"(1) [OF d_def ni off [symmetric] e nf slice False] rp a
            have "only_at (v_addr fv) (heap st)
                (heap (snd (slice_loop E sv fv d ps 0 (the (Length d)) (st\<lparr>rd := r\<rparr>))))"
              by simp
            with ni e off nf slice False show ?thesis
              by (auto simp: eq setValueToField_Some)
          qed
        next
          case array
          define n1 where "n1 = (if Length d \<noteq> None then the (Length d) else 0)"
          define n2 where "n2 = (if n1 = 0 then int (array_len (v_type fv)) else n1)"
          from "4.IH"(2) [OF d_def ni off [symmetric] e nf array n1_def n2_def] rp a
          have "only_at (v_addr fv) (heap st) (heap (snd (array_loop E sv fv d ps 0 n2 (st\<lparr>rd := r\<rparr>))))"
            by simp
          moreover have "n2 = (if Length d = None \<or> the (Length d) = 0
                  then int (array_len (v_type fv)) else the (Length d))"
            by (simp add: n2_def n1_def)
          ultimately show ?thesis
            using ni e off nf array by (simp add: eq setValueToField_Some)
        next
          case struct
          show ?thesis
          proof (cases "v_ro fv")
            case True
            with ni e off nf struct show ?thesis
              by (simp add: eq setValueToField_Some only_at_refl)
          next
            case False
            from "4.IH"(3) [OF d_def ni off [symmetric] e nf struct False] rp a
            have "only_at (v_addr fv) (heap st)
                (heap (snd (unmarshal E (Ptr (v_type fv) (v_addr fv)) (ps @ [sv]) (st\<lparr>rd := r\<rparr>))))"
              by (cases "v_addr fv") simp
            with ni e off nf struct False show ?thesis
              by (auto simp: eq setValueToField_Some split: prod.split outcome.split)
          qed
        next
          case scalar
          with ni e off nf setScalar_frame [of fv "st\<lparr>rd := r\<rparr>" E d] show ?thesis
            by (simp add: eq setValueToField_Some)
        qed
      qed
    qed
  qed
next
  case (5 E sv fv fd ps i n st)
  show ?case
  proof (intro impI)
    assume rp: "receiver_preserving E" and a: "fst (v_addr fv) < length (heap st)"
    show "only_at (v_addr fv) (heap st) (heap (snd (slice_loop E sv fv fd ps i n st)))"
    proof (cases "i < n")
      case False
      then show ?thesis by (simp add: slice_loop.simps only_at_refl)
    next
      case True
      define tmpV where "tmpV = fst (New (elem_type (v_type fv)) st)"
      define st0 where "st0 = snd (New (elem_type (v_type fv)) st)"
      obtain res st' where r: "setValueToField E sv tmpV (ElemFieldData fd) ps st0 = (res, st')"
        by (metis surj_pair)
      have "only_at (v_addr tmpV) (heap st0) (heap st')"
        using "5.IH"(1) [OF True tmpV_def st0_def] rp r by (simp add: tmpV_def st0_def New_heap)
      then have one: "only_at (v_addr fv) (heap st) (heap st')"
        unfolding tmpV_def st0_def by (rule New_frame)
      show ?thesis
      proof (cases res)
        case Ok
        define st'' where "st'' = (if CanSet fv then AppendSet fv tmpV st' else st')"
        have a': "fst (v_addr fv) < length (heap st')"
          using a only_at_length [OF one] by simp
        have "only_at (v_addr fv) (heap st') (heap st'')"
          by (simp add: st''_def AppendSet_frame only_at_refl)
        with a one have two: "only_at (v_addr fv) (heap st) (heap st'')"
          by (rule only_at_trans)
        have a'': "fst (v_addr fv) < length (heap st'')"
          using a only_at_length [OF two] by simp
        have "only_at (v_addr fv) (heap st'') (heap (snd (slice_loop E sv fv fd ps (i + 1) n st'')))"
          using "5.IH"(2) [OF True tmpV_def st0_def r [symmetric] Ok] rp a'' by (simp add: st''_def)
        with a two have "only_at (v_addr fv) (heap st) (heap (snd (slice_loop E sv fv fd ps (i + 1) n st'')))"
          by (rule only_at_trans)
        with True r Ok show ?thesis
          by (auto simp: slice_loop.simps [of E sv fv fd ps i n st] Let_def tmpV_def st0_def st''_def)
      next
        case (Err e)
        with True r one show ?thesis
          by (simp add: slice_loop.simps [of E sv fv fd ps i n st] Let_def tmpV_def st0_def)
      next
        case (Panic m)
        with True r one show ?thesis
          by (simp add: slice_loop.simps [of E sv fv fd ps i n st] Let_def tmpV_def st0_def)
      qed
    qed
  qed
next
  case (6 E sv fv fd ps i n st)
  show ?case
  proof (intro impI)
    assume rp: "receiver_preserving E" and a: "fst (v_addr fv) < length (heap st)"
    show "only_at (v_addr fv) (heap st) (heap (snd (array_loop E sv fv fd ps i n st)))"
    proof (cases "i < n")
      case False
      then show ?thesis by (simp add: array_loop.simps only_at_refl)
    next
      case True
      define tmpV where "tmpV = fst (New (elem_type (v_type fv)) st)"
      define st0 where "st0 = snd (New (elem_type (v_type fv)) st)"
      obtain res st' where r: "setValueToField E sv tmpV (ElemFieldData fd) ps st0 = (res, st')"
        by (metis surj_pair)
      have "only_at (v_addr tmpV) (heap st0) (heap st')"
        using "6.IH"(1) [OF True tmpV_def st0_def] rp r by (simp add: tmpV_def st0_def New_heap)
      then have one: "only_at (v_addr fv) (heap st) (heap st')"
        unfolding tmpV_def st0_def by (rule New_frame)
      have a': "fst (v_addr fv) < length (heap st')"
        using a only_at_length [OF one] by simp
      show ?thesis
      proof (cases res)
        case Ok
        show ?thesis
        proof (cases "CanSet fv")
          case cs: True
          show ?thesis
          proof (cases "nat i < array_len (v_type fv)")
            case inb: True
            define st'' where "st'' = IndexSet fv (nat i) tmpV st'"
            have "only_at (v_addr fv) (heap st') (heap st'')"
              by (simp add: st''_def IndexSet_frame)
            with a one have two: "only_at (v_addr fv) (heap st) (heap st'')"
              by (rule only_at_trans)
            have a'': "fst (v_addr fv) < length (heap st'')"
              using a only_at_length [OF two] by simp
            have "only_at (v_addr fv) (heap st'') (heap (snd (array_loop E sv fv fd ps (i + 1) n st'')))"
              using "6.IH"(2) [OF True tmpV_def st0_def r [symmetric] Ok cs inb] rp a''
              by (simp add: st''_def)
            with a two have "only_at (v_addr fv) (heap st) (heap (snd (array_loop E sv fv fd ps (i + 1) n st'')))"
              by (rule only_at_trans)
            with True r Ok cs inb show ?thesis
              by (auto simp: array_loop.simps [of E sv fv fd ps i n st] Let_def tmpV_def st0_def st''_def)
          next
            case False
            with True r Ok cs one show ?thesis
              by (simp add: array_loop.simps [of E sv fv fd ps i n st] Let_def tmpV_def st0_def)
          qed
        next
          case ncs: False
          have "only_at (v_addr fv) (heap st') (heap (snd (array_loop E sv fv fd ps (i + 1) n st')))"
            using "6.IH"(3) [OF True tmpV_def st0_def r [symmetric] Ok ncs] rp a' by simp
          with a one have "only_at (v_addr fv) (heap st) (heap (snd (array_loop E sv fv fd ps (i + 1) n st')))"
            by (rule only_at_trans)
          with True r Ok ncs show ?thesis
            by (simp add: array_loop.simps [of E sv fv fd ps i n st] Let_def tmpV_def st0_def)
        qed
      next
        case (Err e)
        with True r one show ?thesis
          by (simp add: array_loop.simps [of E sv fv fd ps i n st] Let_def tmpV_def st0_def)
      next
        case (Panic m)
        with True r one show ?thesis
          by (simp add: array_loop.simps [of E sv fv fd ps i n st] Let_def tmpV_def st0_def)
      qed
    qed
  qed
qed

lemma unmarshal_fields_append:
  "unmarshal_fields E sv i (xs @ ys) ps st =
     (case unmarshal_fields E sv i xs ps st of
        (Ok, st1) \<Rightarrow> unmarshal_fields E sv (i + length xs) ys ps st1
      | (res, st1) \<Rightarrow> (res, st1))"
proof (induction xs arbitrary: i st)
  case Nil
  then show ?case by (simp add: unmarshal_fields.simps)
next
  case (Cons x xs)
  show ?case
    by (simp add: unmarshal_fields.simps Cons.IH split: sum.split prod.split outcome.split)
qed

lemma lookup_update_sibling:
  "j \<noteq> i \<Longrightarrow> lookup_path (update_path v (p @ [i]) w) (p @ j # q) = lookup_path v (p @ j # q)"
proof (induction p arbitrary: v)
  case Nil
  then show ?case by (cases v) simp_all
next
  case (Cons k p)
  then show ?case by (cases v) simp_all
qed

lemma load_only_at_sibling:
  assumes "only_at (c, p @ [i]) h h'" and "c < length h" and "j \<noteq> i"
  shows "load h' (c, p @ j # q) = load h (c, p @ j # q)"
proof -
  from assms(1) obtain w ext where "h' = store h (c, p @ [i]) w @ ext"
    by (auto simp: only_at_def)
  with assms(2,3) show ?thesis
    by (simp add: load_def store_def nth_append lookup_update_sibling)
qed

lemma unmarshal_fields_single_frame:
  assumes "receiver_preserving E" and "fst (v_addr sv) < length (heap st)"
  shows "only_at (v_addr (FieldAt sv i f)) (heap st) (heap (snd (unmarshal_fields E sv i [f] ps st)))"
proof (cases "parseTag E (ftag f)")
  case (Inl err)
  then show ?thesis by (simp add: unmarshal_fields.simps only_at_refl)
next
  case (Inr tags)
  show ?thesis
  proof (cases "parseReadDataFromTags E (load (heap st) (v_addr sv)) tags")
    case (Inl err)
    with Inr show ?thesis by (simp add: unmarshal_fields.simps only_at_refl)
  next
    case fd: (Inr fd)
    have "only_at (v_addr (FieldAt sv i f)) (heap st)
        (heap (snd (setValueToField E sv (FieldAt sv i f) fd ps st)))"
      using decoder_frame(3) [of E "FieldAt sv i f" st sv fd ps] assms by (simp add: FieldAt_def)
    with Inr fd show ?thesis
      by (auto simp: unmarshal_fields.simps split: prod.split outcome.split)
  qed
qed

lemma unmarshal_fields_Cons_append:
  "unmarshal_fields E sv i (f # fs) ps st =
     (case unmarshal_fields E sv i [f] ps st of
        (Ok, st1) \<Rightarrow> unmarshal_fields E sv (Suc i) fs ps st1
      | (res, st1) \<Rightarrow> (res, st1))"
  using unmarshal_fields_append [of E sv i "[f]" fs ps st]
  by (auto split: prod.split outcome.split)

lemma unmarshal_fields_keeps_earlier:
  assumes "receiver_preserving E"
  shows "fst (v_addr sv) < length (heap st) \<Longrightarrow> j < i \<Longrightarrow>
     load (heap (snd (unmarshal_fields E sv i fs ps st))) (fst (v_addr sv), snd (v_addr sv) @ j # q)
       = load (heap st) (fst (v_addr sv), snd (v_addr sv) @ j # q)"
proof (induction fs arbitrary: i st)
  case Nil
  then show ?case by (simp add: unmarshal_fields.simps)
next
  case (Cons f fs)
  obtain res s1 where r: "unmarshal_fields E sv i [f] ps st = (res, s1)"
    by (metis surj_pair)
  have fr: "only_at (fst (v_addr sv), snd (v_addr sv) @ [i]) (heap st) (heap s1)"
    using unmarshal_fields_single_frame [OF assms Cons.prems(1), of i f ps] r
    by (simp add: FieldAt_def)
  have one: "load (heap s1) (fst (v_addr sv), snd (v_addr sv) @ j # q)
      = load (heap st) (fst (v_addr sv), snd (v_addr sv) @ j # q)"
    using load_only_at_sibling [OF fr Cons.prems(1)] Cons.prems(2) by simp
  show ?case
  proof (cases res)
    case Ok
    have "fst (v_addr sv) < length (heap s1)"
      using Cons.prems(1) only_at_length [OF fr] by simp
    from Cons.IH [OF this, of "Suc i"] Cons.prems(2) one r Ok show ?thesis
      by (simp add: unmarshal_fields_Cons_append [of E sv i f fs ps st])
  next
    case (Err e)
    with r one show ?thesis by (simp add: unmarshal_fields_Cons_append [of E sv i f fs ps st])
  next
    case (Panic m)
    with r one show ?thesis by (simp add: unmarshal_fields_Cons_append [of E sv i f fs ps st])
  qed
qed

lemma unmarshal_fields_Err_single:
  assumes "unmarshal_fields E sv i [f] ps st = (Err e, st')"
  shows "\<exists>cause. e = Wrapped cause (''failed parseTag for field '' @ quoted (fname f))
           \<or> e = Wrapped cause (''failed parse ReadData from tags for field '' @ quoted (fname f))
           \<or> e = Wrapped cause (''failed set value to field '' @ quoted (fname f))"
  using assms
  by (auto simp: unmarshal_fields.simps split: sum.splits prod.splits outcome.splits)

lemma unmarshal_fields_length:
  assumes "receiver_preserving E" and "fst (v_addr sv) < length (heap st)"
  shows "fst (v_addr sv) < length (heap (snd (unmarshal_fields E sv i fs ps st)))"
  using decoder_frame(2) [of E sv st i fs ps] assms only_at_length by fastforce

text \<open>
  C3. When the fields before a field \<open>f\<close> of a record decode without error and the
  decode of \<open>f\<close> fails, \<^verbatim>\<open>unmarshal\<close> returns that failure at once, whatever fields
  follow. The error is the failure wrapped with a message that names \<open>f\<close>; a failure
  inside a nested record is first wrapped with "unmarshal struct" where the nested
  record is a field, and so carries the name of each enclosing field. The state
  returned is the state in which the failing step ended: nothing is rolled back. If
  the routines of the environment leave their receivers alone, every field before
  \<open>f\<close> still holds, in that state, the value it held right after its own decoding.
\<close>

theorem unmarshal_first_failure:
  assumes fields: "struct_fields t = Some (pre @ f # post)"
    and before: "unmarshal_fields E (Elem t a) 0 pre ps st = (Ok, st1)"
    and failing: "unmarshal_fields E (Elem t a) (length pre) [f] ps st1 = (Err e, st2)"
  shows "unmarshal E (Ptr t a) ps st = (Err e, st2)
     \<and> (\<exists>cause. e = Wrapped cause (''failed parseTag for field '' @ quoted (fname f))
           \<or> e = Wrapped cause (''failed parse ReadData from tags for field '' @ quoted (fname f))
           \<or> e = Wrapped cause (''failed set value to field '' @ quoted (fname f)))
     \<and> (receiver_preserving E \<and> fst a < length (heap st) \<longrightarrow>
          (\<forall>j<length pre. \<forall>q.
             load (heap st2) (fst a, snd a @ j # q)
               = load (heap (snd (unmarshal_fields E (Elem t a) 0 (take (Suc j) pre) ps st)))
                   (fst a, snd a @ j # q)))
     \<and> (kind_of (v_type fv) = KStruct \<and> \<not> v_ro fv
          \<and> unmarshal E (Ptr (v_type fv) (v_addr fv)) (ps' @ [sv]) st' = (Err inner, st'') \<longrightarrow>
          setValueToField E sv fv (Some (FieldReadData False len [] [] el)) ps' st'
            = (Err (Wrapped inner ''unmarshal struct''), st''))"
proof (intro conjI)
  have "unmarshal_fields E (Elem t a) (length pre) (f # post) ps st1 = (Err e, st2)"
    using failing unmarshal_fields_append [of E "Elem t a" "length pre" "[f]" post ps st1]
    by simp
  then have "unmarshal_fields E (Elem t a) 0 (pre @ f # post) ps st = (Err e, st2)"
    using before by (simp add: unmarshal_fields_append)
  then show "unmarshal E (Ptr t a) ps st = (Err e, st2)"
    using fields by (simp add: unmarshal.simps)
next
  show "\<exists>cause. e = Wrapped cause (''failed parseTag for field '' @ quoted (fname f))
           \<or> e = Wrapped cause (''failed parse ReadData from tags for field '' @ quoted (fname f))
           \<or> e = Wrapped cause (''failed set value to field '' @ quoted (fname f))"
    using failing by (rule unmarshal_fields_Err_single)
next
  show "receiver_preserving E \<and> fst a < length (heap st) \<longrightarrow>
          (\<forall>j<length pre. \<forall>q.
             load (heap st2) (fst a, snd a @ j # q)
               = load (heap (snd (unmarshal_fields E (Elem t a) 0 (take (Suc j) pre) ps st)))
                   (fst a, snd a @ j # q))"
  proof (intro impI allI)
    fix j q
    assume h: "receiver_preserving E \<and> fst a < length (heap st)" and j: "j < length pre"
    from h have rp: "receiver_preserving E" and a: "fst (v_addr (Elem t a)) < length (heap st)"
      by (simp_all add: Elem_def)
    define sv where "sv = Elem t a"
    have sva: "v_addr sv = a"
      by (simp add: sv_def Elem_def)
    obtain res s where s: "unmarshal_fields E sv 0 (take (Suc j) pre) ps st = (res, s)"
      by (metis surj_pair)
    have split: "unmarshal_fields E sv 0 pre ps st =
        (case unmarshal_fields E sv 0 (take (Suc j) pre) ps st of
           (Ok, s1) \<Rightarrow> unmarshal_fields E sv (0 + length (take (Suc j) pre)) (drop (Suc j) pre) ps s1
         | (res, s1) \<Rightarrow> (res, s1))"
      using unmarshal_fields_append [of E sv 0 "take (Suc j) pre" "drop (Suc j) pre" ps st]
      by simp
    have ok: "res = Ok"
      using split s before by (cases res) (simp_all add: sv_def)
    have rest: "unmarshal_fields E sv (Suc j) (drop (Suc j) pre) ps s = (Ok, st1)"
      using split s before ok j by (simp add: sv_def min_absorb2)
    have as: "fst (v_addr sv) < length (heap s)"
      using unmarshal_fields_length [OF rp, of sv st 0 "take (Suc j) pre" ps] a s
      by (simp add: sv_def)
    have one: "load (heap st1) (fst a, snd a @ j # q) = load (heap s) (fst a, snd a @ j # q)"
      using unmarshal_fields_keeps_earlier [OF rp as, of j "Suc j" "drop (Suc j) pre" ps q] rest
      by (simp add: sva)
    have as1: "fst (v_addr sv) < length (heap st1)"
      using unmarshal_fields_length [OF rp as, of "Suc j" "drop (Suc j) pre" ps] rest
      by simp
    have "only_at (fst a, snd a @ [length pre]) (heap st1) (heap st2)"
      using unmarshal_fields_single_frame [OF rp as1, of "length pre" f ps] failing
      by (simp add: sv_def FieldAt_def Elem_def)
    then have two: "load (heap st2) (fst a, snd a @ j # q) = load (heap st1) (fst a, snd a @ j # q)"
      using load_only_at_sibling [of "fst a" "snd a" "length pre" "heap st1" "heap st2" j q] as1 j
      by (simp add: sva)
    show "load (heap st2) (fst a, snd a @ j # q)
               = load (heap (snd (unmarshal_fields E (Elem t a) 0 (take (Suc j) pre) ps st)))
                   (fst a, snd a @ j # q)"
      using one two s by (simp add: sv_def)
  qed
next
  show "kind_of (v_type fv) = KStruct \<and> \<not> v_ro fv
          \<and> unmarshal E (Ptr (v_type fv) (v_addr fv)) (ps' @ [sv]) st' = (Err inner, st'') \<longrightarrow>
          setValueToField E sv fv (Some (FieldReadData False len [] [] el)) ps' st'
            = (Err (Wrapped inner ''unmarshal struct''), st'')"
    by (simp add: setValueToField_Some)
qed

text \<open>
  Witness for C3: a record with a header byte and a nested record, over three bytes.
  The 16-bit field \<^verbatim>\<open>B\<close> of the nested record hits the end of the data; the error names
  \<^verbatim>\<open>Body\<close> and \<^verbatim>\<open>B\<close>, and the header keeps the value 7 (as \<^verbatim>\<open>A\<close> keeps 8).
\<close>

theorem message_body_fails:
  "receiver_preserving plain_env
   \<and> unmarshal plain_env (Ptr Message (0, [])) [] (bytes_state [7, 8, 9] [zero_value Message])
      = (Err body_failure,
         \<lparr>rd = \<lparr>br_buf = [7, 8, 9], br_pos = 2\<rparr>, heap = [VStruct [VInt 7, VStruct [VInt 8, VInt 0]]]\<rparr>)
   \<and> Error body_failure =
       ''failed set value to field '' @ quoted ''Body'' @ '': unmarshal struct: failed set value to field ''
         @ quoted ''B'' @ '': EOF''
   \<and> load [VStruct [VInt 7, VStruct [VInt 8, VInt 0]]] (0, [0]) = VInt 7"
proof -
  let ?hdr = "StructField ''Header'' [] True TInt8"
  let ?body = "StructField ''Body'' [] True Body"
  let ?st = "bytes_state [7, 8, 9] [zero_value Message]"
  let ?st1 = "\<lparr>rd = \<lparr>br_buf = [7, 8, 9], br_pos = 1\<rparr>, heap = [VStruct [VInt 7, VStruct [VInt 0, VInt 0]]]\<rparr>"
  let ?st2 = "\<lparr>rd = \<lparr>br_buf = [7, 8, 9], br_pos = 2\<rparr>, heap = [VStruct [VInt 7, VStruct [VInt 8, VInt 0]]]\<rparr>"
  have rp: "receiver_preserving plain_env"
    by (simp add: receiver_preserving_def plain_env_def table_env_def)
  have fields: "struct_fields Message = Some ([?hdr] @ ?body # [])"
    by (simp add: Message_def)
  have before: "unmarshal_fields plain_env (Elem Message (0, [])) 0 [?hdr] [] ?st = (Ok, ?st1)"
    by code_simp
  have failing: "unmarshal_fields plain_env (Elem Message (0, [])) (length [?hdr]) [?body] [] ?st1
      = (Err body_failure, ?st2)"
    by code_simp
  have len: "fst (0::nat, []::nat list) < length (heap ?st)"
    by (simp add: bytes_state_def)
  have first: "snd (unmarshal_fields plain_env (Elem Message (0, [])) 0 (take (Suc 0) [?hdr]) [] ?st) = ?st1"
    using before by simp
  note main = unmarshal_first_failure [OF fields before failing]
  from main have res: "unmarshal plain_env (Ptr Message (0, [])) [] ?st = (Err body_failure, ?st2)"
    by blast
  from main rp len have "\<forall>j<length [?hdr]. \<forall>q.
      load (heap ?st2) (fst (0::nat, []::nat list), snd (0::nat, []::nat list) @ j # q)
        = load (heap (snd (unmarshal_fields plain_env (Elem Message (0, [])) 0 (take (Suc j) [?hdr]) [] ?st)))
            (fst (0::nat, []::nat list), snd (0::nat, []::nat list) @ j # q)"
    by blast
  then have "load (heap ?st2) (0, [0]) = load (heap ?st1) (0, [0])"
    using first by (metis append_Nil fst_conv length_Cons less_Suc0 list.size(3) snd_conv)
  then have kept: "load [VStruct [VInt 7, VStruct [VInt 8, VInt 0]]] (0, [0]) = VInt 7"
    by (simp add: load_def)
  have msg: "Error body_failure =
       ''failed set value to field '' @ quoted ''Body'' @ '': unmarshal struct: failed set value to field ''
         @ quoted ''B'' @ '': EOF''"
    by code_simp
  from rp res msg kept show ?thesis
    by simp
qed

section \<open>Arrays and the declared length\<close>

text \<open>
  C9, at the failing input. An array of two \<^verbatim>\<open>uint8\<close> that can be set, with a directive
  length of 3, over three bytes: the elements at index 0 and 1 are written, the third
  element is decoded, and the assignment at index 2 is not guarded: the decode
  panics with "reflect: array index out of range" instead of returning an error.
\<close>

theorem array_length_beyond_static_length:
  "setValueToField plain_env (single_record (TArray 2 TUint8)) (single_field (TArray 2 TUint8))
       (Some (with_length 3)) [] (bytes_state [1, 2, 3] [zero_value (Single (TArray 2 TUint8))])
     = (Panic ''reflect: array index out of range'',
        \<lparr>rd = \<lparr>br_buf = [1, 2, 3], br_pos = 3\<rparr>,
         heap = [VStruct [VArray [VUint 1, VUint 2]], VUint 1, VUint 2, VUint 3]\<rparr>)"
  by code_simp

end
